theory Spec2Isabelle
  imports Complex_Main "HOL-Library.Product_Lexorder"
begin

section \<open>Python and numpy conventions\<close>

text \<open>
  The development embeds \<^verbatim>\<open>src/luxgiant_dstream/plots.py\<close>. Python integers are
  \<^typ>\<open>int\<close>, the int64 columns of pandas wrap around, a float64 is a real number or one
  of the three values that are not numbers, and an exception is the left summand of a
  result.
\<close>

datatype error = TypeError | ValueError | UnboundLocalError | KeyError | IndexError

text \<open>A statement that raises ends the enclosing function with that exception.\<close>

definition bindE :: "error + 'a \<Rightarrow> ('a \<Rightarrow> error + 'b) \<Rightarrow> error + 'b" where
  "bindE r f = (case r of Inl e \<Rightarrow> Inl e | Inr v \<Rightarrow> f v)"

text \<open>A \<^verbatim>\<open>for\<close> loop whose body may raise, threading the loop's state.\<close>

fun for_each :: "('s \<Rightarrow> 'a \<Rightarrow> error + 's) \<Rightarrow> 'a list \<Rightarrow> 's \<Rightarrow> error + 's" where
  "for_each body [] s = Inr s"
| "for_each body (x # xs) s = bindE (body s x) (for_each body xs)"

subsection \<open>64-bit integers\<close>

text \<open>
  Arithmetic on a numpy int64 column (\<^verbatim>\<open>cumsum\<close>, \<^verbatim>\<open>+\<close>, \<^verbatim>\<open>-\<close>) is done modulo \<open>2\<^sup>6\<^sup>4\<close> and
  read as a signed number; nothing is raised on overflow.
\<close>

definition int64 :: "int \<Rightarrow> int" where
  "int64 x = (x + 2 ^ 63) mod 2 ^ 64 - 2 ^ 63"

subsection \<open>Floating point\<close>

text \<open>
  A float64 value: a finite number, an infinity, or NaN. Equality of rows in pandas
  (\<^verbatim>\<open>drop_duplicates\<close>) takes NaN to be equal to NaN, as equality of this type does.
\<close>

datatype fval = Fin real | PosInf | NegInf | NaN

text \<open>\<^verbatim>\<open>np.rint\<close>: the nearest integer, a tie going to the even neighbour.\<close>

definition rint :: "real \<Rightarrow> int" where
  "rint x =
     (let f = \<lfloor>x\<rfloor>; d = x - of_int f
      in if d < 1 / 2 then f
         else if 1 / 2 < d then f + 1
         else if even f then f else f + 1)"

text \<open>
  Rounding of a real number to float64, to nearest with ties to even: the number is cut
  to 53 significant bits, the unit in the last place being \<open>2\<^sup>e\<close> with \<open>e\<close> at least -1074
  (the subnormal range). A rounded magnitude of \<open>2\<^bsup>1024\<^esup>\<close> or more is an infinity. The
  float64 product and quotient of two float64 numbers are the roundings of the exact
  product and quotient.
\<close>

definition fl :: "real \<Rightarrow> real" where
  "fl x =
     (if x = 0 then 0
      else let e = max (\<lfloor>log 2 \<bar>x\<bar>\<rfloor> - 52) (- 1074)
           in of_int (rint (x / 2 powr of_int e)) * 2 powr of_int e)"

definition to_f64 :: "real \<Rightarrow> fval" where
  "to_f64 x =
     (let r = fl x
      in if 2 ^ 1024 \<le> r then PosInf else if r \<le> - (2 ^ 1024) then NegInf else Fin r)"

text \<open>
  \<^verbatim>\<open>np.round(x, decimals)\<close> multiplies by \<open>10\<^bsup>decimals\<^esup>\<close> in float64, rounds the product
  with \<^verbatim>\<open>rint\<close> and divides again in float64; an infinity and NaN are returned as they are.
  The code uses 3 and 0 decimals, whose powers of ten are float64 numbers.
\<close>

definition np_round :: "fval \<Rightarrow> nat \<Rightarrow> fval" where
  "np_round v decimals =
     (case v of
        Fin x \<Rightarrow>
          (case to_f64 (x * 10 ^ decimals) of
             Fin scaled \<Rightarrow> to_f64 (of_int (rint scaled) / 10 ^ decimals)
           | PosInf \<Rightarrow> PosInf | NegInf \<Rightarrow> NegInf | NaN \<Rightarrow> NaN)
      | PosInf \<Rightarrow> PosInf | NegInf \<Rightarrow> NegInf | NaN \<Rightarrow> NaN)"

text \<open>
  \<^verbatim>\<open>-np.log10(p)\<close>: finite for a positive \<open>p\<close> (read as the real logarithm), infinite at
  zero and NaN below zero; numpy warns and does not raise.
\<close>

definition neg_log10 :: "real \<Rightarrow> fval" where
  "neg_log10 p = (if 0 < p then Fin (- log 10 p) else if p = 0 then PosInf else NaN)"

text \<open>The comparison \<^verbatim>\<open>a < b\<close> of two floats: false whenever NaN is involved.\<close>

fun fless :: "fval \<Rightarrow> fval \<Rightarrow> bool" where
  "fless (Fin x) (Fin y) = (x < y)"
| "fless (Fin x) PosInf = True"
| "fless NegInf (Fin y) = True"
| "fless NegInf PosInf = True"
| "fless a b = False"

text \<open>
  Python's builtins \<^verbatim>\<open>max(a, b)\<close> and \<^verbatim>\<open>min(a, b)\<close> keep the first argument unless the second
  is strictly beyond it; \<^verbatim>\<open>max(iterable)\<close> folds in the same way and raises \<^verbatim>\<open>ValueError\<close>
  on an empty iterable.
\<close>

definition py_max2 :: "fval \<Rightarrow> fval \<Rightarrow> fval" where
  "py_max2 a b = (if fless a b then b else a)"

definition py_min2 :: "fval \<Rightarrow> fval \<Rightarrow> fval" where
  "py_min2 a b = (if fless b a then b else a)"

definition py_max :: "fval list \<Rightarrow> error + fval" where
  "py_max xs = (case xs of [] \<Rightarrow> Inl ValueError | x # rest \<Rightarrow> Inr (foldl py_max2 x rest))"

text \<open>
  The numpy methods \<^verbatim>\<open>a.min()\<close> and \<^verbatim>\<open>a.max()\<close>: \<^verbatim>\<open>ValueError\<close> on an empty array, NaN as
  soon as the array holds a NaN.
\<close>

definition np_min :: "fval list \<Rightarrow> error + fval" where
  "np_min xs =
     (case xs of
        [] \<Rightarrow> Inl ValueError
      | x # rest \<Rightarrow> if NaN \<in> set xs then Inr NaN else Inr (foldl py_min2 x rest))"

definition np_max :: "fval list \<Rightarrow> error + fval" where
  "np_max xs =
     (case xs of
        [] \<Rightarrow> Inl ValueError
      | x # rest \<Rightarrow> if NaN \<in> set xs then Inr NaN else Inr (foldl py_max2 x rest))"

text \<open>
  The pandas method \<^verbatim>\<open>Series.max()\<close> (with \<^verbatim>\<open>skipna=True\<close>, the default) leaves NaN out and
  is NaN when nothing is left.
\<close>

definition series_max :: "fval list \<Rightarrow> fval" where
  "series_max xs =
     (case filter (\<lambda>v. v \<noteq> NaN) xs of [] \<Rightarrow> NaN | x # rest \<Rightarrow> foldl py_max2 x rest)"

text \<open>The float64 sum of a float and a finite constant, and \<^verbatim>\<open>np.ceil\<close>.\<close>

definition shift :: "fval \<Rightarrow> real \<Rightarrow> fval" where
  "shift v c =
     (case v of Fin x \<Rightarrow> to_f64 (x + c) | PosInf \<Rightarrow> PosInf | NegInf \<Rightarrow> NegInf | NaN \<Rightarrow> NaN)"

definition np_ceil :: "fval \<Rightarrow> fval" where
  "np_ceil v =
     (case v of Fin x \<Rightarrow> Fin (of_int \<lceil>x\<rceil>) | PosInf \<Rightarrow> PosInf | NegInf \<Rightarrow> NegInf | NaN \<Rightarrow> NaN)"

text \<open>
  \<^verbatim>\<open>Axes.set_xlim\<close> and \<^verbatim>\<open>Axes.set_ylim\<close> of matplotlib raise \<^verbatim>\<open>ValueError\<close> for a limit that
  is NaN or infinite.
\<close>

definition set_lim :: "fval \<Rightarrow> fval \<Rightarrow> error + real \<times> real" where
  "set_lim lo hi =
     (case lo of
        Fin a \<Rightarrow> (case hi of Fin b \<Rightarrow> Inr (a, b) | PosInf \<Rightarrow> Inl ValueError
                   | NegInf \<Rightarrow> Inl ValueError | NaN \<Rightarrow> Inl ValueError)
      | PosInf \<Rightarrow> Inl ValueError | NegInf \<Rightarrow> Inl ValueError | NaN \<Rightarrow> Inl ValueError)"

subsection \<open>Frames\<close>

text \<open>
  \<^verbatim>\<open>DataFrame.drop_duplicates()\<close> with its default \<^verbatim>\<open>keep='first'\<close>: rows are visited in
  order and a row equal to one already seen is dropped.
\<close>

fun drop_duplicates_from :: "'a list \<Rightarrow> 'a list \<Rightarrow> 'a list" where
  "drop_duplicates_from seen [] = []"
| "drop_duplicates_from seen (x # xs) =
     (if x \<in> set seen then drop_duplicates_from seen xs
      else x # drop_duplicates_from (x # seen) xs)"

definition drop_duplicates :: "'a list \<Rightarrow> 'a list" where
  "drop_duplicates xs = drop_duplicates_from [] xs"

section \<open>QQ plot: thinning\<close>

text \<open>
  Lines 228 to 235 of \<^verbatim>\<open>qq_plot\<close> (the branch taken, since \<^verbatim>\<open>grp\<close> is \<^verbatim>\<open>None\<close>): a
  two-column frame of the observed and expected values, both rounded to three decimals,
  with duplicate rows dropped. A row of the frame is a pair (observed, expected).
\<close>

definition thin :: "(fval \<times> fval) list \<Rightarrow> (fval \<times> fval) list" where
  "thin X = drop_duplicates (map (\<lambda>(pvalues, exp_x). (np_round pvalues 3, np_round exp_x 3)) X)"

section \<open>QQ plot: confidence band\<close>

text \<open>
  \<^verbatim>\<open>np.zeros((rows, 2))\<close>: an array of \<^verbatim>\<open>rows\<close> rows and two columns, here a list of
  pairs; numpy rejects a negative dimension with \<^verbatim>\<open>ValueError\<close>.
\<close>

definition np_zeros2 :: "int \<Rightarrow> error + (real \<times> real) list" where
  "np_zeros2 rows = (if rows < 0 then Inl ValueError else Inr (replicate (nat rows) (0, 0)))"

text \<open>
  A numpy row index: a negative index counts from the end, and an index outside the
  array raises \<^verbatim>\<open>IndexError\<close>.
\<close>

definition np_index :: "'a list \<Rightarrow> int \<Rightarrow> error + nat" where
  "np_index m r =
     (let len = int (length m); j = (if r < 0 then len + r else r)
      in if 0 \<le> j \<and> j < len then Inr (nat j) else Inl IndexError)"

text \<open>The assignments \<^verbatim>\<open>m[r, 0] = v\<close> and \<^verbatim>\<open>m[r, 1] = v\<close>.\<close>

definition np_set0 :: "(real \<times> real) list \<Rightarrow> int \<Rightarrow> real \<Rightarrow> error + (real \<times> real) list" where
  "np_set0 m r v = bindE (np_index m r) (\<lambda>j. Inr (m[j := (v, snd (m ! j))]))"

definition np_set1 :: "(real \<times> real) list \<Rightarrow> int \<Rightarrow> real \<Rightarrow> error + (real \<times> real) list" where
  "np_set1 m r v = bindE (np_index m r) (\<lambda>j. Inr (m[j := (fst (m ! j), v)]))"

text \<open>
  The body of the loop of \<^verbatim>\<open>plot_confidence_interval\<close> (lines 268 to 276). The quantile
  function \<^verbatim>\<open>scipy.stats.beta.ppf\<close> belongs to an external library and is a parameter
  \<open>ppf\<close> of the model: \<open>ppf q a b\<close> is the \<open>q\<close>-quantile of the Beta distribution with
  shapes \<open>a\<close> and \<open>b\<close>. \<^verbatim>\<open>np.log10\<close> does not raise.
\<close>

definition conf_body ::
  "int \<Rightarrow> real \<Rightarrow> (real \<Rightarrow> int \<Rightarrow> int \<Rightarrow> real) \<Rightarrow> int \<Rightarrow>
   (real \<times> real) list \<Rightarrow> int \<Rightarrow> error + (real \<times> real) list" where
  "conf_body n conf_alpha ppf conf_points mpts i =
     (let x = - log 10 ((of_int i - 0.5) / of_int n);
          y_upper = - log 10 (ppf (1 - conf_alpha / 2) i (n - i));
          y_lower = - log 10 (ppf (conf_alpha / 2) i (n - i))
      in bindE (np_set0 mpts (i - 1) x) (\<lambda>m1.
         bindE (np_set1 m1 (i - 1) y_upper) (\<lambda>m2.
         bindE (np_set0 m2 (conf_points * 2 - i) x) (\<lambda>m3.
         np_set1 m3 (conf_points * 2 - i) y_lower))))"

text \<open>
  \<^verbatim>\<open>plot_confidence_interval(n, conf_points, conf_col, conf_alpha)\<close>, lines 263 to 279. The
  result is the array \<^verbatim>\<open>mpts\<close> handed to \<^verbatim>\<open>plt.fill\<close>; the fill colour is not represented.
\<close>

definition plot_confidence_interval ::
  "int \<Rightarrow> int \<Rightarrow> real \<Rightarrow> (real \<Rightarrow> int \<Rightarrow> int \<Rightarrow> real) \<Rightarrow> error + (real \<times> real) list" where
  "plot_confidence_interval n conf_points conf_alpha ppf =
     (let conf_points = min conf_points (n - 1)
      in bindE (np_zeros2 (conf_points * 2))
           (for_each (conf_body n conf_alpha ppf conf_points) [1..conf_points]))"

text \<open>
  The Beta distribution with positive integer shapes \<open>a\<close> and \<open>b\<close> has the cumulative
  distribution function \<open>x \<mapsto> \<Sum>j = a..a+b-1. C(a+b-1, j) x\<^sup>j (1-x)\<^bsup>a+b-1-j\<^esup>\<close> on the
  unit interval, and its quantile function is the inverse of it. This is the function
  that \<^verbatim>\<open>scipy.stats.beta.ppf\<close> approximates at integer shapes.
\<close>

definition beta_cdf :: "nat \<Rightarrow> nat \<Rightarrow> real \<Rightarrow> real" where
  "beta_cdf a b x =
     (\<Sum>j = a..a + b - 1. of_nat ((a + b - 1) choose j) * x ^ j * (1 - x) ^ (a + b - 1 - j))"

definition beta_ppf :: "real \<Rightarrow> int \<Rightarrow> int \<Rightarrow> real" where
  "beta_ppf q a b = (THE x. 0 \<le> x \<and> x \<le> 1 \<and> beta_cdf (nat a) (nat b) x = q)"

section \<open>Tables\<close>

text \<open>
  A pandas frame is the list of its rows, and a row is a record of the columns the code
  reads. Every frame is joined on the column \<^verbatim>\<open>SNP\<close>. In an association table the
  chromosome column \<^verbatim>\<open>CHR\<close> is the field \<open>chrom\<close>, of any linearly ordered type of
  identifiers (integers, or strings in their own order); the p-value column \<^verbatim>\<open>p\<close> is the
  field \<open>pval\<close>; the position column (named \<^verbatim>\<open>bp\<close> by \<^verbatim>\<open>manhattan_plot\<close> and \<^verbatim>\<open>POS\<close> by
  \<^verbatim>\<open>miami_plot\<close>) is the field \<open>POS\<close>, an int64 column. A column that the code adds to a
  caller's frame is an optional field: \<open>None\<close> while the column is absent.
\<close>

record variant =
  SNP :: string

record 'c gwas_row = variant +
  chrom :: 'c
  POS :: int
  pval :: real
  split_by :: "string option"

record annot_row = variant +
  GENE :: string
  type_tag :: "string option"

text \<open>Rows of the frames that the plotting functions build for themselves.\<close>

record 'c manhattan_row =
  row :: "'c gwas_row"
  log10P :: fval
  ind :: nat

record 'c miami_row =
  base :: "'c gwas_row"
  rel_pos :: int
  log10p :: fval

text \<open>
  \<^verbatim>\<open>groupby(key)\<close>: one group per distinct key, the keys in ascending order, the rows of
  a group in their order in the frame.
\<close>

definition groupby :: "('r \<Rightarrow> 'k::linorder) \<Rightarrow> 'r list \<Rightarrow> ('k \<times> 'r list) list" where
  "groupby key rows = map (\<lambda>k. (k, filter (\<lambda>r. key r = k) rows)) (sort (remdups (map key rows)))"

text \<open>\<^verbatim>\<open>Series.cumsum()\<close> of an int64 column: the running sums, each wrapped.\<close>

fun cumsum_from :: "int \<Rightarrow> int list \<Rightarrow> int list" where
  "cumsum_from acc [] = []"
| "cumsum_from acc (x # xs) = int64 (acc + x) # cumsum_from (int64 (acc + x)) xs"

definition cumsum :: "int list \<Rightarrow> int list" where
  "cumsum xs = cumsum_from 0 xs"

text \<open>
  \<^verbatim>\<open>pd.merge(left, right, on=key)\<close>, an inner join: each left row, in order, is paired with
  every right row of the same key.
\<close>

definition merge_inner :: "('a \<Rightarrow> 'k) \<Rightarrow> ('b \<Rightarrow> 'k) \<Rightarrow> 'a list \<Rightarrow> 'b list \<Rightarrow> ('a \<times> 'b) list" where
  "merge_inner lkey rkey left right =
     concat (map (\<lambda>l. map (\<lambda>r. (l, r)) (filter (\<lambda>r. rkey r = lkey l) right)) left)"

section \<open>Coordinate transformer\<close>

text \<open>
  \<^verbatim>\<open>compute_relative_pos(data, chr_col, pos_col, p_col)\<close>, lines 472 to 492. The column
  names are the accessors of the columns. \<open>chr_grouped\<close> pairs each chromosome with the
  largest position seen on it (line 473); line 476 turns the lengths into the offsets,
  a running sum minus the length, both in int64; line 479 joins the offsets to the rows;
  line 482 sorts by chromosome and position; line 485 adds position and offset in int64;
  line 490 adds the column \<^verbatim>\<open>log10p\<close>.
\<close>

definition chr_grouped ::
  "('c::linorder gwas_row \<Rightarrow> 'c) \<Rightarrow> ('c gwas_row \<Rightarrow> int) \<Rightarrow> 'c gwas_row list \<Rightarrow> ('c \<times> int) list" where
  "chr_grouped chr_col pos_col data =
     map (\<lambda>(c, g). (c, Max (set (map pos_col g)))) (groupby chr_col data)"

definition cumulativechrlength :: "('c \<times> int) list \<Rightarrow> ('c \<times> int) list" where
  "cumulativechrlength grouped =
     zip (map fst grouped)
       (map2 (\<lambda>total chrlength. int64 (total - chrlength)) (cumsum (map snd grouped)) (map snd grouped))"

definition compute_relative_pos ::
  "'c::linorder gwas_row list \<Rightarrow> ('c gwas_row \<Rightarrow> 'c) \<Rightarrow> ('c gwas_row \<Rightarrow> int) \<Rightarrow>
   ('c gwas_row \<Rightarrow> real) \<Rightarrow> 'c miami_row list" where
  "compute_relative_pos data chr_col pos_col p_col =
     (let grouped = chr_grouped chr_col pos_col data;
          merged = merge_inner chr_col fst data (cumulativechrlength grouped);
          sorted = sort_key (\<lambda>(r, c, offset). (chr_col r, pos_col r)) merged
      in map (\<lambda>(r, c, offset).
                \<lparr>base = r, rel_pos = int64 (pos_col r + offset), log10p = neg_log10 (p_col r)\<rparr>) sorted)"

text \<open>
  The offset of a chromosome as the specification words it: the sum, over the chromosomes
  earlier in the traversal order, of the largest position observed on each; and the sum
  over all chromosomes.
\<close>

definition chrom_length :: "'c gwas_row list \<Rightarrow> 'c \<Rightarrow> int" where
  "chrom_length data c = Max (set (map POS (filter (\<lambda>r. chrom r = c) data)))"

definition cumulative_offset :: "'c::linorder gwas_row list \<Rightarrow> 'c \<Rightarrow> int" where
  "cumulative_offset data c =
     sum_list (map (chrom_length data) (filter (\<lambda>c'. c' < c) (sort (remdups (map chrom data)))))"

definition genome_length :: "'c::linorder gwas_row list \<Rightarrow> int" where
  "genome_length data = sum_list (map (chrom_length data) (sort (remdups (map chrom data))))"

text \<open>
  \<^verbatim>\<open>find_chromosomes_center(data)\<close>, lines 514 to 525: for each chromosome, in order of
  first appearance, the midpoint of its relative positions rounded to an integer. The
  sum of the two int64 numbers wraps and is divided as a float64.
\<close>

definition find_chromosomes_center :: "'c miami_row list \<Rightarrow> ('c \<times> fval) list" where
  "find_chromosomes_center data =
     map (\<lambda>c. let temp = map rel_pos (filter (\<lambda>r. chrom (base r) = c) data)
               in (c, np_round (to_f64 (of_int (int64 (Max (set temp) + Min (set temp))) / 2)) 0))
         (drop_duplicates (map (\<lambda>r. chrom (base r)) data))"

section \<open>Variant classifier\<close>

text \<open>
  \<^verbatim>\<open>classify_annotations(df_top_highlts, df_bottom_highlts)\<close>, lines 582 to 592. The frames
  built here are new ones; the caller's two tables are only read.
\<close>

definition set_type :: "string \<Rightarrow> annot_row list \<Rightarrow> annot_row list" where
  "set_type t rows = map (\<lambda>r. r\<lparr>type_tag := Some t\<rparr>) rows"

definition classify_annotations :: "annot_row list \<Rightarrow> annot_row list \<Rightarrow> annot_row list" where
  "classify_annotations df_top_highlts df_bottom_highlts =
     (let df_both = set_type ''on_both''
            (map fst (merge_inner SNP id df_top_highlts (map SNP df_bottom_highlts)));
          df_top_in_bottom = set_type ''top_in_bottom''
            (filter (\<lambda>r. SNP r \<notin> set (map SNP df_bottom_highlts)) df_top_highlts);
          df_bottom_in_top = set_type ''bottom_in_top''
            (filter (\<lambda>r. SNP r \<notin> set (map SNP df_top_highlts)) df_bottom_highlts)
      in df_both @ df_top_in_bottom @ df_bottom_in_top)"

text \<open>The rows of a classified frame that carry a given tag, and the identifiers of a frame.\<close>

definition of_type :: "string \<Rightarrow> annot_row list \<Rightarrow> annot_row list" where
  "of_type t rows = filter (\<lambda>r. type_tag r = Some t) rows"

definition ids :: "annot_row list \<Rightarrow> string set" where
  "ids rows = set (map SNP rows)"

section \<open>Caller state and figures\<close>

text \<open>
  The frames a caller passes are objects that the callee can write to, so they live in a
  store: an argument is the address of a frame, and an assignment such as
  \<^verbatim>\<open>df['col'] = v\<close> on a parameter updates the store. Association tables and annotation
  tables are kept apart by their types. The frames a function builds itself
  (\<^verbatim>\<open>copy\<close>, \<^verbatim>\<open>merge\<close>, \<^verbatim>\<open>concat\<close>, \<^verbatim>\<open>sort_values\<close>, a boolean selection) are new objects
  and are plain values. The image files written so far are part of the state.
\<close>

datatype artist =
    Scatter "(fval \<times> fval) list" string
  | Text fval fval string
  | HLine real
  | Fill "(real \<times> real) list" string
  | Line "(real \<times> real) list"

record 'c axes =
  artists :: "artist list"
  xticks :: "fval list"
  xticklabels :: "'c list"
  xlim :: "(real \<times> real) option"
  ylim :: "(real \<times> real) option"

definition new_axes :: "'c axes" where
  "new_axes = \<lparr>artists = [], xticks = [], xticklabels = [], xlim = None, ylim = None\<rparr>"

definition draw :: "artist \<Rightarrow> 'c axes \<Rightarrow> 'c axes" where
  "draw a ax = ax\<lparr>artists := artists ax @ [a]\<rparr>"

record 'c world =
  gwas_frames :: "nat \<Rightarrow> 'c gwas_row list"
  annot_frames :: "nat \<Rightarrow> annot_row list"
  files :: "(string \<times> 'c axes list) list"

text \<open>
  \<^verbatim>\<open>plt.savefig(os.path.join(plots_dir, name))\<close>. Static styling (labels, titles, grid,
  fonts, figure size) is not represented in a figure. Of matplotlib, the check of the
  axis limits is modelled; its drawing calls are taken not to raise.
\<close>

definition os_path_join :: "string \<Rightarrow> string \<Rightarrow> string" where
  "os_path_join a b =
     (if a = [] then b else if last a = CHR ''/'' then a @ b else a @ ''/'' @ b)"

definition savefig :: "string \<Rightarrow> string \<Rightarrow> 'c axes list \<Rightarrow> 'c world \<Rightarrow> 'c world" where
  "savefig plots_dir name fig w = w\<lparr>files := files w @ [(os_path_join plots_dir name, fig)]\<rparr>"

text \<open>
  \<^verbatim>\<open>genes[snps.index(s)]\<close>: \<^verbatim>\<open>list.index\<close> raises \<^verbatim>\<open>ValueError\<close> when \<open>s\<close> is not in the
  list, and the subscript raises \<^verbatim>\<open>IndexError\<close> past the end of \<open>genes\<close>.
\<close>

fun list_index :: "'a list \<Rightarrow> 'a \<Rightarrow> error + nat" where
  "list_index [] s = Inl ValueError"
| "list_index (x # xs) s = (if x = s then Inr 0 else bindE (list_index xs s) (\<lambda>i. Inr (Suc i)))"

definition subscript :: "'a list \<Rightarrow> nat \<Rightarrow> error + 'a" where
  "subscript xs i = (if i < length xs then Inr (xs ! i) else Inl IndexError)"

definition gene_of :: "string list \<Rightarrow> string list \<Rightarrow> string \<Rightarrow> error + string" where
  "gene_of snps genes s = bindE (list_index snps s) (subscript genes)"

section \<open>Manhattan plot\<close>

text \<open>
  \<^verbatim>\<open>draw_chrom_groups(ax, df_chr_group, highlighted_snps)\<close>, lines 130 to 155: one scatter
  per chromosome in alternating colours, a tick at the middle index of each group, and
  the highlighted points drawn again in every iteration.
\<close>

definition middle_pos :: "'c manhattan_row list \<Rightarrow> fval" where
  "middle_pos grp = Fin ((of_nat (ind (last grp)) + of_nat (ind (hd grp))) / 2)"

definition points :: "'c manhattan_row list \<Rightarrow> (fval \<times> fval) list" where
  "points rows = map (\<lambda>r. (Fin (of_nat (ind r)), log10P r)) rows"

definition draw_group ::
  "'c manhattan_row list option \<Rightarrow> 'c axes \<Rightarrow> nat \<times> 'c \<times> 'c manhattan_row list \<Rightarrow> 'c axes" where
  "draw_group highlighted_snps ax g =
     (case g of (num, name, grp) \<Rightarrow>
        let ax1 = draw (Scatter (points grp) ([''grey'', ''skyblue''] ! (num mod 2))) ax;
            ax2 = ax1\<lparr>xticks := xticks ax1 @ [middle_pos grp],
                      xticklabels := xticklabels ax1 @ [name]\<rparr>
        in case highlighted_snps of
             None \<Rightarrow> ax2
           | Some h \<Rightarrow> draw (Scatter (points h) ''red'') ax2)"

definition draw_chrom_groups ::
  "'c axes \<Rightarrow> ('c \<times> 'c manhattan_row list) list \<Rightarrow> 'c manhattan_row list option \<Rightarrow> 'c axes" where
  "draw_chrom_groups ax df_chr_group highlighted_snps =
     foldl (draw_group highlighted_snps) ax (enumerate 0 df_chr_group)"

text \<open>
  \<^verbatim>\<open>annotate_plot(ax, highlighted_snps, snps, genes)\<close>, lines 157 to 188. Python binds the
  positional arguments of a call to the four parameters, none of which has a default:
  a call with another number of arguments raises \<^verbatim>\<open>TypeError\<close> before the body runs.
  A function is therefore applied to the list of its arguments.
\<close>

datatype 'c pyval = PAxes "'c axes" | PFrame "'c manhattan_row list" | PList "string list"

definition annotate_row ::
  "string list \<Rightarrow> string list \<Rightarrow> 'c axes \<Rightarrow> 'c manhattan_row \<Rightarrow> error + 'c axes" where
  "annotate_row snps genes ax r =
     bindE (gene_of snps genes (SNP (row r)))
       (\<lambda>gene. Inr (draw (Text (Fin (of_nat (ind r))) (log10P r) gene) ax))"

fun annotate_plot :: "'c pyval list \<Rightarrow> error + 'c axes" where
  "annotate_plot [PAxes ax, PFrame highlighted_snps, PList snps, PList genes] =
     for_each (annotate_row snps genes) highlighted_snps ax"
| "annotate_plot args = Inl TypeError"

text \<open>
  \<^verbatim>\<open>manhattan_plot(df_gwas, plots_dir=None, df_annot=None, annotate=False)\<close>, lines 52 to
  103, in three parts. Lines 52 to 59 build the frame \<^verbatim>\<open>df\<close>: a copy of \<^verbatim>\<open>df_gwas\<close> with
  the column \<^verbatim>\<open>log10P\<close>, sorted by chromosome and position, then numbered by \<^verbatim>\<open>ind\<close>.
\<close>

definition manhattan_df :: "'c::linorder gwas_row list \<Rightarrow> 'c manhattan_row list" where
  "manhattan_df df_gwas =
     (let df0 = map (\<lambda>r. (r, neg_log10 (pval r))) df_gwas;
          df1 = sort_key (\<lambda>(r, l). (chrom r, POS r)) df0
      in map (\<lambda>(i, r, l). \<lparr>row = r, log10P = l, ind = i\<rparr>) (enumerate 0 df1))"

text \<open>
  Lines 60 to 94 draw the axes. The names \<^verbatim>\<open>highlighted_snps\<close> and \<^verbatim>\<open>genes\<close> are bound
  only when an annotation table is given (lines 63 to 66), and line 79 calls
  \<^verbatim>\<open>annotate_plot(ax, highlighted_snps, genes)\<close>. Line 83 takes Python's \<^verbatim>\<open>max\<close> of the
  column \<^verbatim>\<open>log10P\<close> and sets the y limits.
\<close>

definition manhattan_axes ::
  "'c::linorder world \<Rightarrow> nat \<Rightarrow> nat option \<Rightarrow> bool \<Rightarrow> error + 'c axes" where
  "manhattan_axes w df_gwas df_annot annotate =
     (let df = manhattan_df (gwas_frames w df_gwas);
          df_grouped = groupby (\<lambda>r. chrom (row r)) df;
          snps = map_option (\<lambda>a. map SNP (annot_frames w a)) df_annot;
          genes = map_option (\<lambda>a. map GENE (annot_frames w a)) df_annot;
          highlighted_snps = map_option (\<lambda>s. filter (\<lambda>r. SNP (row r) \<in> set s) df) snps;
          ax = draw_chrom_groups new_axes df_grouped highlighted_snps;
          annotated =
            (if annotate then
               (case (highlighted_snps, genes) of
                  (Some h, Some g) \<Rightarrow> annotate_plot [PAxes ax, PFrame h, PList g]
                | _ \<Rightarrow> Inl UnboundLocalError)
             else Inr ax)
      in bindE annotated (\<lambda>ax.
         bindE (py_max (map log10P df)) (\<lambda>highest.
         bindE (set_lim (Fin 0) (shift highest 1)) (\<lambda>limits.
           Inr (draw (HLine (- log 10 (5 / 10 ^ 8)))
                  (ax\<lparr>xlim := Some (0, of_nat (length df)), ylim := Some limits\<rparr>))))))"

text \<open>
  Lines 96 to 103 return the axes when \<^verbatim>\<open>plots_dir\<close> is \<^verbatim>\<open>None\<close>, and otherwise save the
  figure and return \<^verbatim>\<open>True\<close>.
\<close>

datatype 'c ret = RetAxes "'c axes" | RetBool bool

definition manhattan_plot ::
  "'c::linorder world \<Rightarrow> nat \<Rightarrow> string option \<Rightarrow> nat option \<Rightarrow> bool \<Rightarrow>
   (error + 'c ret) \<times> 'c world" where
  "manhattan_plot w df_gwas plots_dir df_annot annotate =
     (case manhattan_axes w df_gwas df_annot annotate of
        Inl e \<Rightarrow> (Inl e, w)
      | Inr ax \<Rightarrow>
          (case plots_dir of
             None \<Rightarrow> (Inr (RetAxes ax), w)
           | Some d \<Rightarrow> (Inr (RetBool True), savefig d ''manhattan_plot.png'' [ax] w)))"

section \<open>QQ plot\<close>

text \<open>
  \<^verbatim>\<open>scipy.stats.rankdata(a, method='ordinal')\<close>: ranks from 1, equal values ranked in the
  order they occur.
\<close>

definition rankdata :: "real list \<Rightarrow> int list" where
  "rankdata a =
     map (\<lambda>i. 1 + int (length (filter (\<lambda>j. a ! j < a ! i \<or> (a ! j = a ! i \<and> j < i)) [0..<length a])))
         [0..<length a]"

text \<open>
  \<^verbatim>\<open>qq_plot(df_gwas, plots_dir)\<close>, lines 207 to 306, with \<^verbatim>\<open>grp\<close> equal to \<^verbatim>\<open>None\<close> as line
  208 sets it. The axis range (line 237) is computed before the confidence band is
  drawn (line 282), and the limits are set, and checked, at lines 295 and 296.
\<close>

definition qq_plot ::
  "'c world \<Rightarrow> nat \<Rightarrow> string \<Rightarrow> (real \<Rightarrow> int \<Rightarrow> int \<Rightarrow> real) \<Rightarrow> (error + bool) \<times> 'c world" where
  "qq_plot w df_gwas plots_dir ppf =
     (let pvalues = map pval (gwas_frames w df_gwas);
          n = int (length pvalues);
          log_p = map neg_log10 pvalues;
          exp_x = map (\<lambda>r. neg_log10 ((of_int r - 0.5) / of_int n)) (rankdata pvalues);
          thinned = thin (zip log_p exp_x);
          log_p = map fst thinned;
          exp_x = map snd thinned;
          drawn =
            bindE (np_min log_p) (\<lambda>lo1. bindE (np_min exp_x) (\<lambda>lo2.
            bindE (np_max log_p) (\<lambda>hi1. bindE (np_max exp_x) (\<lambda>hi2.
            let lowest = shift (py_min2 lo1 lo2) (- 0.5);
                highest = shift (py_max2 hi1 hi2) 1
            in bindE (plot_confidence_interval n 1500 0.05 ppf) (\<lambda>mpts.
               bindE (set_lim lowest highest) (\<lambda>axis_range.
                 Inr ((draw (Line [(fst axis_range, fst axis_range), (snd axis_range, snd axis_range)])
                        (draw (Scatter (zip exp_x log_p) ''C0'')
                          (draw (Fill mpts ''lightgray'') new_axes)))
                      \<lparr>xlim := Some axis_range, ylim := Some axis_range\<rparr>)))))))
      in case drawn of
           Inl e \<Rightarrow> (Inl e, w)
         | Inr ax \<Rightarrow> (Inr True, savefig plots_dir ''qq_plot.png'' [ax] w))"

section \<open>Miami plot\<close>

text \<open>
  \<^verbatim>\<open>prepare_data(data_top, data_bottom)\<close>, lines 444 to 449: the two assignments write
  the column \<^verbatim>\<open>split_by\<close> into the caller's frames, then the frames are concatenated.
\<close>

definition set_split_by :: "nat \<Rightarrow> string \<Rightarrow> 'c world \<Rightarrow> 'c world" where
  "set_split_by a v w =
     w\<lparr>gwas_frames := (gwas_frames w)(a := map (\<lambda>r. r\<lparr>split_by := Some v\<rparr>) (gwas_frames w a))\<rparr>"

definition prepare_data :: "'c world \<Rightarrow> nat \<Rightarrow> nat \<Rightarrow> 'c gwas_row list \<times> 'c world" where
  "prepare_data w data_top data_bottom =
     (let w1 = set_split_by data_top ''top'' w;
          w2 = set_split_by data_bottom ''bottom'' w1;
          joint = gwas_frames w2 data_top @ gwas_frames w2 data_bottom
      in (joint, w2))"

text \<open>\<^verbatim>\<open>process_miami_data(data_top, data_bottom)\<close>, lines 548 to 563.\<close>

record 'c miami_data =
  upper :: "'c miami_row list"
  lower :: "'c miami_row list"
  axis :: "('c \<times> fval) list"
  maxp :: fval

definition process_miami_data ::
  "'c::linorder world \<Rightarrow> nat \<Rightarrow> nat \<Rightarrow> 'c miami_data \<times> 'c world" where
  "process_miami_data w data_top data_bottom =
     (case prepare_data w data_top data_bottom of (joint, w') \<Rightarrow>
        let data = compute_relative_pos joint chrom POS pval;
            axis_center = find_chromosomes_center data;
            maxp = np_ceil (series_max (map log10p data))
        in (\<lparr>upper = filter (\<lambda>r. split_by (base r) = Some ''top'') data,
             lower = filter (\<lambda>r. split_by (base r) = Some ''bottom'') data,
             axis = axis_center, maxp = maxp\<rparr>, w'))"

text \<open>
  A call of \<^verbatim>\<open>sns.scatterplot\<close>. Whether seaborn draws or raises on given data depends on
  the library, which is a parameter \<open>sns\<close> of the model: \<open>sns a\<close> is the exception raised
  for the scatter \<open>a\<close>, or \<open>None\<close> when it is drawn.
\<close>

definition scatterplot :: "(artist \<Rightarrow> error option) \<Rightarrow> artist \<Rightarrow> 'c axes \<Rightarrow> error + 'c axes" where
  "scatterplot sns a ax = (case sns a of Some e \<Rightarrow> Inl e | None \<Rightarrow> Inr (draw a ax))"

text \<open>
  \<^verbatim>\<open>annotate_miami(axes, gwas_data, annotations, to_annotate)\<close>, lines 597 to 629: the
  annotation rows found in the panel's data are drawn, and those whose \<^verbatim>\<open>type\<close> is in
  \<^verbatim>\<open>to_annotate\<close> receive their gene name as a label.
\<close>

definition has_type :: "string list \<Rightarrow> annot_row \<Rightarrow> bool" where
  "has_type to_annotate a =
     (case type_tag a of None \<Rightarrow> False | Some t \<Rightarrow> t \<in> set to_annotate)"

definition label_row ::
  "string list \<Rightarrow> string list \<Rightarrow> 'c axes \<Rightarrow> annot_row \<times> 'c miami_row \<Rightarrow> error + 'c axes" where
  "label_row snps genes ax h =
     bindE (gene_of snps genes (SNP (fst h)))
       (\<lambda>gene. Inr (draw (Text (Fin (of_int (rel_pos (snd h)))) (log10p (snd h)) gene) ax))"

definition annotate_miami ::
  "(artist \<Rightarrow> error option) \<Rightarrow> 'c axes \<Rightarrow> 'c miami_row list \<Rightarrow> annot_row list \<Rightarrow> string list \<Rightarrow>
   error + 'c axes" where
  "annotate_miami sns ax gwas_data annotations to_annotate =
     (let snps = map SNP annotations;
          genes = map GENE annotations;
          highlighted_snps = merge_inner SNP (\<lambda>g. SNP (base g)) annotations gwas_data;
          snps_to_annotate = filter (\<lambda>h. has_type to_annotate (fst h)) highlighted_snps
      in bindE (scatterplot sns
                  (Scatter (map (\<lambda>h. (Fin (of_int (rel_pos (snd h))), log10p (snd h))) highlighted_snps)
                     ''hue=type'') ax)
           (for_each (label_row snps genes) snps_to_annotate))"

text \<open>
  Lines 352 to 395 of \<^verbatim>\<open>miami_plot\<close> draw the two panels. \<^verbatim>\<open>max_x_axis\<close> is Python's \<^verbatim>\<open>max\<close>
  of the two largest relative positions, the largest of an empty column being NaN; the
  limits are set at lines 363, 383 and 384.
\<close>

definition series_max_int :: "int list \<Rightarrow> fval" where
  "series_max_int xs = (if xs = [] then NaN else Fin (of_int (Max (set xs))))"

definition panel_points :: "'c miami_row list \<Rightarrow> artist" where
  "panel_points data = Scatter (map (\<lambda>r. (Fin (of_int (rel_pos r)), log10p r)) data) ''hue=CHR''"

definition threshold_lines :: "'c axes \<Rightarrow> 'c axes" where
  "threshold_lines ax = draw (HLine (- log 10 (5 / 10 ^ 8))) (draw (HLine (- log 10 (1 / 10 ^ 5))) ax)"

definition miami_panels ::
  "(artist \<Rightarrow> error option) \<Rightarrow> 'c miami_data \<Rightarrow> error + 'c axes \<times> 'c axes" where
  "miami_panels sns plot_data =
     (let max_x_axis = py_max2 (series_max_int (map rel_pos (upper plot_data)))
                               (series_max_int (map rel_pos (lower plot_data)))
      in bindE (scatterplot sns (panel_points (upper plot_data)) new_axes) (\<lambda>u1.
         bindE (set_lim (Fin 0) max_x_axis) (\<lambda>upper_xlim.
         bindE (scatterplot sns (panel_points (lower plot_data)) new_axes) (\<lambda>l1.
         bindE (set_lim (maxp plot_data) (Fin 0)) (\<lambda>lower_ylim.
         bindE (set_lim (Fin 0) max_x_axis) (\<lambda>lower_xlim.
           Inr (threshold_lines
                  (u1\<lparr>xlim := Some upper_xlim, xticks := map snd (axis plot_data),
                       xticklabels := map fst (axis plot_data)\<rparr>),
                threshold_lines
                  (l1\<lparr>ylim := Some lower_ylim, xlim := Some lower_xlim,
                       xticks := map snd (axis plot_data), xticklabels := []\<rparr>))))))))"

text \<open>
  \<^verbatim>\<open>miami_plot(df_top, top_higlights, df_bottom, bottom_higlights, plots_dir)\<close>, lines 343
  to 426. A highlight table may be \<^verbatim>\<open>None\<close>. With exactly one highlight table, lines 399
  and 406 write the column \<^verbatim>\<open>type\<close> into the caller's table, once the panels are drawn.
\<close>

definition set_type_at :: "nat \<Rightarrow> string \<Rightarrow> 'c world \<Rightarrow> 'c world" where
  "set_type_at a t w = w\<lparr>annot_frames := (annot_frames w)(a := set_type t (annot_frames w a))\<rparr>"

definition tag_highlights :: "nat option \<Rightarrow> nat option \<Rightarrow> 'c world \<Rightarrow> 'c world" where
  "tag_highlights top_higlights bottom_higlights w =
     (case (top_higlights, bottom_higlights) of
        (Some t, None) \<Rightarrow> set_type_at t ''top_in_bottom'' w
      | (None, Some b) \<Rightarrow> set_type_at b ''bottom_in_top'' w
      | _ \<Rightarrow> w)"

definition annotate_both ::
  "(artist \<Rightarrow> error option) \<Rightarrow> 'c axes \<times> 'c axes \<Rightarrow> 'c miami_data \<Rightarrow> annot_row list \<Rightarrow>
   string list \<Rightarrow> string list \<Rightarrow> error + 'c axes \<times> 'c axes" where
  "annotate_both sns panels plot_data annotations upper_types lower_types =
     bindE (annotate_miami sns (fst panels) (upper plot_data) annotations upper_types) (\<lambda>ax_upper.
     bindE (annotate_miami sns (snd panels) (lower plot_data) annotations lower_types) (\<lambda>ax_lower.
       Inr (ax_upper, ax_lower)))"

definition miami_plot ::
  "(artist \<Rightarrow> error option) \<Rightarrow> 'c::linorder world \<Rightarrow> nat \<Rightarrow> nat option \<Rightarrow> nat \<Rightarrow> nat option \<Rightarrow>
   string \<Rightarrow> (error + bool) \<times> 'c world" where
  "miami_plot sns w df_top top_higlights df_bottom bottom_higlights plots_dir =
     (case process_miami_data w df_top df_bottom of (plot_data, w1) \<Rightarrow>
        (case miami_panels sns plot_data of
           Inl e \<Rightarrow> (Inl e, w1)
         | Inr panels \<Rightarrow>
             let w2 = tag_highlights top_higlights bottom_higlights w1;
                 annotated =
                   (case (top_higlights, bottom_higlights) of
                      (Some t, None) \<Rightarrow>
                        annotate_both sns panels plot_data (annot_frames w2 t)
                          [''top_in_bottom''] [''top_in_bottom'']
                    | (None, Some b) \<Rightarrow>
                        annotate_both sns panels plot_data (annot_frames w2 b)
                          [''bottom_in_top''] [''bottom_in_top'']
                    | (Some t, Some b) \<Rightarrow>
                        annotate_both sns panels plot_data
                          (classify_annotations (annot_frames w2 t) (annot_frames w2 b))
                          [''on_both'', ''top_in_bottom''] [''on_both'']
                    | (None, None) \<Rightarrow> Inr panels)
             in case annotated of
                  Inl e \<Rightarrow> (Inl e, w2)
                | Inr (ax_upper, ax_lower) \<Rightarrow>
                    (Inr True, savefig plots_dir ''miami_plot.png'' [ax_upper, ax_lower] w2)))"

section \<open>Observations and example inputs\<close>

text \<open>A frame without one of the columns that the code may add to it.\<close>

definition drop_split_by :: "'c gwas_row list \<Rightarrow> 'c gwas_row list" where
  "drop_split_by rows = map (\<lambda>r. r\<lparr>split_by := None\<rparr>) rows"

definition drop_type :: "annot_row list \<Rightarrow> annot_row list" where
  "drop_type rows = map (\<lambda>r. r\<lparr>type_tag := None\<rparr>) rows"

text \<open>The points of a scatter; the other artists hold none.\<close>

fun scatter_points :: "artist \<Rightarrow> (fval \<times> fval) list" where
  "scatter_points (Scatter pts colour) = pts"
| "scatter_points a = []"

text \<open>
  A float within the range in which three-decimal rounding is shown to be stable: the
  infinities, NaN, and the finite numbers of magnitude at most \<open>2\<^bsup>38\<^esup>\<close>. The value
  \<^verbatim>\<open>-np.log10(p)\<close> of every float64 \<open>p\<close> is in this range.
\<close>

definition moderate :: "fval \<Rightarrow> bool" where
  "moderate v =
     (case v of Fin x \<Rightarrow> \<bar>x\<bar> \<le> 2 ^ 38 | PosInf \<Rightarrow> True | NegInf \<Rightarrow> True | NaN \<Rightarrow> True)"

text \<open>
  A p-value of the data model: a float64 number in \<open>(0, 1]\<close>. The smallest positive float64
  number is \<open>2\<^bsup>-1074\<^esup>\<close>.
\<close>

definition float64_pvalue :: "real \<Rightarrow> bool" where
  "float64_pvalue x \<longleftrightarrow> 1 / 2 ^ 1074 \<le> x \<and> x \<le> 1"

text \<open>
  The association table of the specification's scenario (chromosomes 1, 1, 2, 2 at
  positions 100, 200, 50, 300), three further tables, and a store holding them together
  with an annotation table.
\<close>

definition scenario_table :: "int gwas_row list" where
  "scenario_table =
     [\<lparr>SNP = ''rs1'', chrom = 1, POS = 100, pval = 1 / 10 ^ 9, split_by = None\<rparr>,
      \<lparr>SNP = ''rs2'', chrom = 1, POS = 200, pval = 1 / 2, split_by = None\<rparr>,
      \<lparr>SNP = ''rs3'', chrom = 2, POS = 50, pval = 1 / 100, split_by = None\<rparr>,
      \<lparr>SNP = ''rs4'', chrom = 2, POS = 300, pval = 5 / 10 ^ 8, split_by = None\<rparr>]"

definition boundary_table :: "int gwas_row list" where
  "boundary_table =
     [\<lparr>SNP = ''rs5'', chrom = 1, POS = 200, pval = 1 / 2, split_by = None\<rparr>,
      \<lparr>SNP = ''rs6'', chrom = 2, POS = 0, pval = 1 / 2, split_by = None\<rparr>]"

definition overflow_table :: "int gwas_row list" where
  "overflow_table =
     [\<lparr>SNP = ''rs8'', chrom = 1, POS = 2 ^ 63 - 1, pval = 1 / 2, split_by = None\<rparr>,
      \<lparr>SNP = ''rs9'', chrom = 2, POS = 1, pval = 1 / 2, split_by = None\<rparr>]"

definition single_table :: "int gwas_row list" where
  "single_table = [\<lparr>SNP = ''rs7'', chrom = 1, POS = 10, pval = 1 / 10, split_by = None\<rparr>]"

definition annot :: "string \<Rightarrow> string \<Rightarrow> annot_row" where
  "annot s g = \<lparr>SNP = s, GENE = g, type_tag = None\<rparr>"

definition scenario_world :: "int world" where
  "scenario_world =
     \<lparr>gwas_frames = (\<lambda>a. if a = 0 then scenario_table else if a = 1 then boundary_table
                          else if a = 2 then single_table else []),
      annot_frames = (\<lambda>a. if a = 0 then [annot ''rs1'' ''GENE1''] else []),
      files = []\<rparr>"

text \<open>A seaborn that draws every scatter.\<close>

definition sns_draws :: "artist \<Rightarrow> error option" where
  "sns_draws a = None"

section \<open>Properties of float64 rounding and of thinning\<close>

lemma rint_of_int: "rint (of_int k) = k"
  by (simp add: rint_def)

lemma rint_err: "\<bar>of_int (rint s) - s\<bar> \<le> 1 / 2"
  unfolding rint_def Let_def by (auto simp: abs_le_iff)

lemma rint_near:
  assumes "\<bar>z - of_int K\<bar> < 1 / 2"
  shows "rint z = K"
proof -
  have "- (1 / 2) < z - of_int K" and "z - of_int K < 1 / 2"
    using assms by (simp_all only: abs_less_iff minus_diff_eq) linarith+
  then have lo: "of_int (K - 1) \<le> z" and hi: "z < of_int (K + 1)"
    by simp_all
  have "K - 1 \<le> \<lfloor>z\<rfloor>" using lo by (simp only: le_floor_iff)
  moreover have "\<lfloor>z\<rfloor> < K + 1" using hi by (simp only: floor_less_iff)
  ultimately have "\<lfloor>z\<rfloor> = K \<or> \<lfloor>z\<rfloor> = K - 1" by linarith
  then show ?thesis
  proof
    assume f: "\<lfloor>z\<rfloor> = K"
    then have "z - of_int \<lfloor>z\<rfloor> < 1 / 2" using \<open>z - of_int K < 1 / 2\<close> by simp
    then show ?thesis by (simp add: rint_def f)
  next
    assume f: "\<lfloor>z\<rfloor> = K - 1"
    then have "1 / 2 < z - of_int \<lfloor>z\<rfloor>" using \<open>- (1 / 2) < z - of_int K\<close> by simp
    then show ?thesis by (simp add: rint_def f)
  qed
qed

lemma fl_abs_err:
  assumes "x \<noteq> 0"
  shows "\<bar>fl x - x\<bar> \<le> 2 powr of_int (max (\<lfloor>log 2 \<bar>x\<bar>\<rfloor> - 52) (- 1074)) / 2"
proof -
  let ?e = "max (\<lfloor>log 2 \<bar>x\<bar>\<rfloor> - 52) (- 1074)"
  let ?u = "2 powr of_int ?e :: real"
  have u: "0 < ?u" by simp
  have "fl x - x = (of_int (rint (x / ?u)) - x / ?u) * ?u"
    using assms u by (simp add: fl_def Let_def algebra_simps)
  then have "\<bar>fl x - x\<bar> = \<bar>of_int (rint (x / ?u)) - x / ?u\<bar> * ?u"
    using u by (simp add: abs_mult)
  also have "\<dots> \<le> (1 / 2) * ?u"
    using rint_err[of "x / ?u"] u by (intro mult_right_mono) simp_all
  finally show ?thesis by simp
qed

lemma pow2_floor_log: 
  assumes "x \<noteq> 0"
  shows "2 powr of_int \<lfloor>log 2 \<bar>x\<bar>\<rfloor> \<le> \<bar>x\<bar>"
proof -
  have "2 powr of_int \<lfloor>log 2 \<bar>x\<bar>\<rfloor> \<le> 2 powr log 2 \<bar>x\<bar>"
    by (rule powr_mono) simp_all
  also have "\<dots> = \<bar>x\<bar>" using assms by simp
  finally show ?thesis .
qed

lemma fl_rel_err:
  assumes "2 powr (- 1022) \<le> \<bar>x\<bar>"
  shows "\<bar>fl x - x\<bar> \<le> \<bar>x\<bar> * 2 powr (- 53)"
proof -
  have "(0::real) < 2 powr (- 1022)" by simp
  then have x0: "x \<noteq> 0" using assms by auto
  have "log 2 (2 powr (- 1022)) \<le> log 2 \<bar>x\<bar>"
    using assms x0 by (subst log_le_cancel_iff) simp_all
  then have "- 1022 \<le> log 2 \<bar>x\<bar>" by simp
  then have "of_int (- 1022) \<le> log 2 \<bar>x\<bar>" by simp
  then have "- 1022 \<le> \<lfloor>log 2 \<bar>x\<bar>\<rfloor>" by (simp only: le_floor_iff)
  then have e: "max (\<lfloor>log 2 \<bar>x\<bar>\<rfloor> - 52) (- 1074) = \<lfloor>log 2 \<bar>x\<bar>\<rfloor> - 52" by linarith
  have "\<bar>fl x - x\<bar> \<le> 2 powr of_int (\<lfloor>log 2 \<bar>x\<bar>\<rfloor> - 52) / 2"
    using fl_abs_err[OF x0] unfolding e .
  also have "\<dots> = 2 powr of_int \<lfloor>log 2 \<bar>x\<bar>\<rfloor> * 2 powr (- 53)"
    by (simp add: powr_diff powr_minus divide_simps)
  also have "\<dots> \<le> \<bar>x\<bar> * 2 powr (- 53)"
    using pow2_floor_log[OF x0] by (intro mult_right_mono) simp_all
  finally show ?thesis .
qed

lemma p53: "(2::real) powr (- 53) = 1 / 2 ^ 53"
  by (simp add: powr_minus_divide)

lemma p1022: "(2::real) powr (- 1022) \<le> 1 / 1024"
proof -
  have "(2::real) powr (- 1022) \<le> 2 powr (- 10)" by (rule powr_mono) simp_all
  also have "\<dots> = 1 / 1024" by (simp add: powr_minus_divide)
  finally show ?thesis .
qed

lemma e3: "(10::real) ^ 3 = 1000"
  by simp

lemma fl_crude: "\<bar>fl b\<bar> \<le> 2 * \<bar>b\<bar> + 1"
proof (cases "b = 0")
  case True
  then show ?thesis by (simp add: fl_def)
next
  case False
  let ?e = "max (\<lfloor>log 2 \<bar>b\<bar>\<rfloor> - 52) (- 1074)"
  have "2 powr of_int ?e \<le> \<bar>b\<bar> + 1"
  proof (cases "\<lfloor>log 2 \<bar>b\<bar>\<rfloor> - 52 \<le> - 1074")
    case True
    then have "?e = - 1074" by simp
    moreover have "(2::real) powr (- 1074) \<le> 2 powr 0" by (rule powr_mono) simp_all
    ultimately show ?thesis by simp
  next
    case False
    then have e: "?e = \<lfloor>log 2 \<bar>b\<bar>\<rfloor> - 52" by simp
    have "(2::real) powr of_int (\<lfloor>log 2 \<bar>b\<bar>\<rfloor> - 52) \<le> 2 powr of_int \<lfloor>log 2 \<bar>b\<bar>\<rfloor>"
      by (rule powr_mono) simp_all
    also have "\<dots> \<le> \<bar>b\<bar>" by (rule pow2_floor_log) (rule \<open>b \<noteq> 0\<close>)
    finally show ?thesis unfolding e by simp
  qed
  with fl_abs_err[OF False] have "\<bar>fl b - b\<bar> \<le> (\<bar>b\<bar> + 1) / 2" by simp
  moreover have "\<bar>fl b\<bar> \<le> \<bar>fl b - b\<bar> + \<bar>b\<bar>"
    using abs_triangle_ineq[of "fl b - b" b] by simp
  moreover have "\<And>A B C :: real. B \<le> (C + 1) / 2 \<Longrightarrow> A \<le> B + C \<Longrightarrow> 0 \<le> C \<Longrightarrow> A \<le> 2 * C + 1"
    by argo
  ultimately show ?thesis using abs_ge_zero[of b] by blast
qed

lemma to_f64_small: "\<bar>x\<bar> \<le> 2 ^ 60 \<Longrightarrow> to_f64 x = Fin (fl x)"
proof -
  assume a: "\<bar>x\<bar> \<le> 2 ^ 60"
  have "\<bar>fl x\<bar> \<le> 2 * 2 ^ 60 + 1" using fl_crude[of x] a by linarith
  also have "\<dots> < (2::real) ^ 1024" by simp
  finally have "\<bar>fl x\<bar> < 2 ^ 1024" .
  then show ?thesis by (auto simp: to_f64_def Let_def)
qed

lemma np_round_grid:
  fixes K :: int
  assumes "\<bar>K\<bar> \<le> 2 ^ 50"
  shows "to_f64 (of_int K / 1000) = Fin (fl (of_int K / 1000))"
    and "np_round (Fin (fl (of_int K / 1000))) 3 = Fin (fl (of_int K / 1000))"
proof -
  let ?a = "of_int K / 1000 :: real"
  let ?y = "fl ?a"
  have Kr: "\<bar>of_int K :: real\<bar> \<le> 2 ^ 50" using assms by (metis of_int_abs of_int_le_iff of_int_numeral of_int_power)
  then have a60: "\<bar>?a\<bar> \<le> 2 ^ 60" by simp
  show fa: "to_f64 ?a = Fin ?y" by (rule to_f64_small[OF a60])
  show "np_round (Fin ?y) 3 = Fin ?y"
  proof (cases "K = 0")
    case True
    then show ?thesis
      by (simp add: np_round_def fl_def to_f64_def rint_def)
  next
    case False
    then have "1 \<le> \<bar>K\<bar>" by simp
    then have "(1::real) \<le> of_int \<bar>K\<bar>" by (simp only: of_int_1_le_iff)
    then have K1: "1 \<le> \<bar>of_int K :: real\<bar>" by simp
    have a_norm: "2 powr (- 1022) \<le> \<bar>?a\<bar>" using K1 p1022 by simp
    have ya: "\<bar>?y - ?a\<bar> \<le> \<bar>?a\<bar> * (1 / 2 ^ 53)"
      using fl_rel_err[OF a_norm] unfolding p53 .
    let ?b = "?y * 1000"
    have bK: "\<bar>?b - of_int K\<bar> \<le> \<bar>of_int K\<bar> * (1 / 2 ^ 53)"
    proof -
      have "?b - of_int K = (?y - ?a) * 1000" by simp
      then have "\<bar>?b - of_int K\<bar> = \<bar>(?y - ?a) * 1000\<bar>" by (rule arg_cong)
      also have "\<dots> = \<bar>?y - ?a\<bar> * 1000" by (simp only: abs_mult abs_numeral)
      also have "\<dots> \<le> (\<bar>?a\<bar> * (1 / 2 ^ 53)) * 1000" using ya by simp
      also have "\<dots> = \<bar>of_int K\<bar> * (1 / 2 ^ 53)" by simp
      finally show ?thesis .
    qed
    have small: "\<bar>of_int K :: real\<bar> * (1 / 2 ^ 53) \<le> \<bar>of_int K\<bar> / 2"
      by (simp add: field_simps)
    have b_lo: "\<bar>of_int K :: real\<bar> / 2 \<le> \<bar>?b\<bar>" and b_hi: "\<bar>?b\<bar> \<le> 2 * \<bar>of_int K\<bar>"
      using bK small by linarith+
    have b_norm: "2 powr (- 1022) \<le> \<bar>?b\<bar>" using b_lo K1 p1022 by linarith
    have fb: "\<bar>fl ?b - ?b\<bar> \<le> \<bar>?b\<bar> * (1 / 2 ^ 53)"
      using fl_rel_err[OF b_norm] unfolding p53 .
    have "\<bar>?b\<bar> * (1 / 2 ^ 53) \<le> (2 * \<bar>of_int K\<bar>) * (1 / 2 ^ 53)"
      using b_hi by (intro mult_right_mono) simp_all
    with fb bK have "\<bar>fl ?b - of_int K\<bar> \<le> 3 * \<bar>of_int K :: real\<bar> * (1 / 2 ^ 53)"
      by linarith
    also have "\<dots> \<le> 3 * 2 ^ 50 * (1 / 2 ^ 53)"
      using Kr by (intro mult_right_mono mult_left_mono) simp_all
    also have "\<dots> < 1 / 2" by simp
    finally have near: "\<bar>fl ?b - of_int K\<bar> < 1 / 2" .
    have r: "rint (fl ?b) = K" by (rule rint_near[OF near])
    have "(2::real) * 2 ^ 50 \<le> 2 ^ 60" by simp
    then have b60: "\<bar>?b\<bar> \<le> 2 ^ 60" using b_hi Kr by linarith
    have tb: "to_f64 ?b = Fin (fl ?b)" by (rule to_f64_small[OF b60])
    show ?thesis
      unfolding np_round_def e3 by (simp add: tb r fa)
  qed
qed

lemma np_round_on_grid:
  assumes "\<bar>x\<bar> \<le> 2 ^ 38"
  shows "\<exists>K. \<bar>K\<bar> \<le> 2 ^ 50 \<and> np_round (Fin x) 3 = Fin (fl (of_int K / 1000))"
proof -
  let ?b = "x * 1000"
  have b: "\<bar>?b\<bar> \<le> 2 ^ 48"
  proof -
    have "\<bar>?b\<bar> = \<bar>x\<bar> * 1000" by (simp add: abs_mult)
    also have "\<dots> \<le> 2 ^ 38 * 1000" using assms by simp
    also have "\<dots> \<le> (2::real) ^ 48" by simp
    finally show ?thesis .
  qed
  then have b60: "\<bar>?b\<bar> \<le> 2 ^ 60" by simp
  have tb: "to_f64 ?b = Fin (fl ?b)" by (rule to_f64_small[OF b60])
  let ?K = "rint (fl ?b)"
  have "\<bar>fl ?b\<bar> \<le> 2 * 2 ^ 48 + 1" using fl_crude[of ?b] b by linarith
  moreover have "\<bar>of_int ?K - fl ?b\<bar> \<le> 1 / 2" by (rule rint_err)
  ultimately have "\<bar>of_int ?K :: real\<bar> \<le> 2 * 2 ^ 48 + 1 + 1 / 2" by linarith
  also have "\<dots> \<le> 2 ^ 50" by simp
  finally have "\<bar>of_int ?K :: real\<bar> \<le> 2 ^ 50" .
  then have "\<bar>?K\<bar> \<le> 2 ^ 50" by (metis of_int_abs of_int_le_iff of_int_numeral of_int_power)
  moreover have "np_round (Fin x) 3 = Fin (fl (of_int ?K / 1000))"
    unfolding np_round_def e3 using np_round_grid(1)[OF \<open>\<bar>?K\<bar> \<le> 2 ^ 50\<close>]
    by (simp add: tb)
  ultimately show ?thesis by blast
qed

lemma np_round_idem: "moderate v \<Longrightarrow> np_round (np_round v 3) 3 = np_round v 3"
proof (cases v)
  case (Fin x)
  assume "moderate v"
  then have "\<bar>x\<bar> \<le> 2 ^ 38" using Fin by (simp add: moderate_def)
  from np_round_on_grid[OF this] obtain K where
    K: "\<bar>K\<bar> \<le> 2 ^ 50" "np_round (Fin x) 3 = Fin (fl (of_int K / 1000))" by blast
  show ?thesis unfolding Fin K(2) by (rule np_round_grid(2)[OF K(1)])
qed (simp_all add: np_round_def)

lemma floor_log2:
  assumes "2 powr of_int n \<le> x" "x < 2 powr of_int (n + 1)"
  shows "\<lfloor>log 2 x\<rfloor> = n"
proof -
  have "(0::real) < 2 powr of_int n" by simp
  then have x: "0 < x" using assms(1) by linarith
  have "log 2 (2 powr of_int n) \<le> log 2 x"
    using assms(1) x by (subst log_le_cancel_iff) simp_all
  then have lo: "of_int n \<le> log 2 x" by simp
  have "log 2 x < log 2 (2 powr of_int (n + 1))"
    using assms(2) x by (subst log_less_cancel_iff) simp_all
  then have hi: "log 2 x < of_int n + 1" by simp
  show ?thesis using lo hi by (intro floor_unique) simp_all
qed

lemma fl_normal:
  assumes "2 powr of_int n \<le> x" "x < 2 powr of_int (n + 1)" "- 1022 \<le> n"
  shows "fl x = of_int (rint (x / 2 powr of_int (n - 52))) * 2 powr of_int (n - 52)"
proof -
  have "(0::real) < 2 powr of_int n" by simp
  then have x: "0 < x" using assms(1) by linarith
  have f: "\<lfloor>log 2 \<bar>x\<bar>\<rfloor> = n" using floor_log2[OF assms(1,2)] x by simp
  have e: "max (n - 52) (- 1074) = n - 52" using assms(3) by linarith
  show ?thesis using x unfolding fl_def Let_def f e by simp
qed

lemma fl_scaled: "fl (5764607523034235 / 2 ^ 61 * 1000) = 5 / 2"
proof -
  let ?b = "5764607523034235 / 2 ^ 61 * 1000 :: real"
  have "fl ?b = of_int (rint (?b / 2 powr of_int (1 - 52))) * 2 powr of_int (1 - 52)"
    by (rule fl_normal) simp_all
  moreover have "?b / 2 powr of_int (1 - 52) = 5629499534213120 + 15 / 128"
    by (simp add: powr_minus_divide)
  moreover have "rint (5629499534213120 + 15 / 128) = 5629499534213120"
    by (rule rint_near) simp
  ultimately show ?thesis by (simp add: powr_minus_divide)
qed

lemma fl_two_thousandths: "fl (2 / 1000) = 1152921504606847 / 2 ^ 59"
proof -
  have "fl (2 / 1000) = of_int (rint ((2 / 1000) / 2 powr of_int (- 9 - 52))) * 2 powr of_int (- 9 - 52)"
    by (rule fl_normal) (simp_all add: powr_minus_divide)
  moreover have "(2 / 1000) / 2 powr of_int (- 9 - 52) = (4611686018427388 - 12 / 125 :: real)"
    by (simp add: powr_minus_divide)
  moreover have "rint (4611686018427388 - 12 / 125) = 4611686018427388"
    by (rule rint_near) simp
  ultimately show ?thesis by (simp add: powr_minus_divide)
qed

text \<open>
  The float64 nearest to 0.0025 is \<open>5764607523034235 / 2\<^bsup>61\<^esup>\<close>, a little above 0.0025. Its
  float64 product with 1000 is exactly 2.5, a tie that goes to 2, and the result is the
  float64 nearest to 0.002.
\<close>

lemma np_round_tie:
  "np_round (Fin (5764607523034235 / 2 ^ 61)) 3 = Fin (1152921504606847 / 2 ^ 59)"
proof -
  have r: "rint (5 / 2) = 2" by (simp add: rint_def)
  have "to_f64 (5764607523034235 / 2 ^ 61 * 1000) = Fin (fl (5764607523034235 / 2 ^ 61 * 1000))"
    by (rule to_f64_small) simp
  then have a: "to_f64 (5764607523034235 / 2 ^ 61 * 1000) = Fin (5 / 2)"
    unfolding fl_scaled .
  have "to_f64 (2 / 1000) = Fin (fl (2 / 1000))"
    by (rule to_f64_small) simp
  then have b: "to_f64 (2 / 1000) = Fin (1152921504606847 / 2 ^ 59)"
    unfolding fl_two_thousandths .
  show ?thesis
    unfolding np_round_def e3 a fval.case r using b by simp
qed

lemma drop_duplicates_from_set:
  "set (drop_duplicates_from seen xs) = set xs - set seen"
  by (induction xs arbitrary: seen) auto

lemma drop_duplicates_from_distinct: "distinct (drop_duplicates_from seen xs)"
  by (induction xs arbitrary: seen) (auto simp: drop_duplicates_from_set)

lemma drop_duplicates_from_id:
  "distinct xs \<Longrightarrow> set xs \<inter> set seen = {} \<Longrightarrow> drop_duplicates_from seen xs = xs"
  by (induction xs arbitrary: seen) auto

lemma drop_duplicates_from_length: "length (drop_duplicates_from seen xs) \<le> length xs"
  by (induction xs arbitrary: seen) (auto simp: le_SucI)

lemma drop_duplicates_from_map_fixed:
  "(\<And>x. x \<in> set xs \<Longrightarrow> f (f x) = f x) \<Longrightarrow>
   map f (drop_duplicates_from seen (map f xs)) = drop_duplicates_from seen (map f xs)"
  by (induction xs arbitrary: seen) auto

text \<open>
  Claim C5. Thinning (round both coordinates to three decimals in float64, drop
  duplicate pairs, keep first occurrences in order) never lengthens its input, and it is
  idempotent on every list of pairs of floats whose finite coordinates have magnitude at
  most \<open>2\<^bsup>38\<^esup>\<close>, which covers every value of \<^verbatim>\<open>-np.log10\<close> on float64.
\<close>

theorem thin_idempotent_and_shrinks:
  "length (thin X) \<le> length X \<and>
   (list_all (\<lambda>(a, b). moderate a \<and> moderate b) X \<longrightarrow> thin (thin X) = thin X)"
proof (intro conjI impI)
  let ?r = "\<lambda>(pvalues, exp_x). (np_round pvalues 3, np_round exp_x (3::nat))"
  show "length (thin X) \<le> length X"
    using drop_duplicates_from_length[of "[]" "map ?r X"]
    by (simp add: thin_def drop_duplicates_def)
  assume m: "list_all (\<lambda>(a, b). moderate a \<and> moderate b) X"
  have fixed: "?r (?r x) = ?r x" if "x \<in> set X" for x
    using that m by (auto simp: list_all_iff np_round_idem split: prod.splits)
  have "map ?r (thin X) = thin X"
    unfolding thin_def drop_duplicates_def
    by (rule drop_duplicates_from_map_fixed) (rule fixed)
  moreover have "drop_duplicates (thin X) = thin X"
    unfolding thin_def drop_duplicates_def
    by (rule drop_duplicates_from_id) (simp_all add: drop_duplicates_from_distinct)
  ultimately show "thin (thin X) = thin X"
    by (simp add: thin_def[of "thin X"])
qed

text \<open>A list with a repeated pair, an infinity and a NaN.\<close>

theorem thin_idempotent_and_shrinks_witness:
  "list_all (\<lambda>(a, b). moderate a \<and> moderate b)
     [(Fin (1 / 4), Fin 1), (Fin (1 / 4), Fin 1), (PosInf, NaN)] \<and>
   thin (thin [(Fin (1 / 4), Fin 1), (Fin (1 / 4), Fin 1), (PosInf, NaN)]) =
     thin [(Fin (1 / 4), Fin 1), (Fin (1 / 4), Fin 1), (PosInf, NaN)]"
proof -
  have m: "list_all (\<lambda>(a, b). moderate a \<and> moderate b)
     [(Fin (1 / 4), Fin 1), (Fin (1 / 4), Fin 1), (PosInf, NaN)]"
    by (simp add: moderate_def)
  with thin_idempotent_and_shrinks[of "[(Fin (1 / 4), Fin 1), (Fin (1 / 4), Fin 1), (PosInf, NaN)]"]
  show ?thesis by blast
qed

section \<open>Properties of the confidence band\<close>

lemma bindE_Inr: "bindE (Inr v) f = f v"
  by (simp add: bindE_def)

lemma for_each_append:
  "for_each body (xs @ ys) s = bindE (for_each body xs s) (for_each body ys)"
  by (induction xs arbitrary: s) (auto simp: bindE_def split: sum.splits)

lemma np_index_in_range:
  "0 \<le> r \<Longrightarrow> r < int (length m) \<Longrightarrow> np_index m r = Inr (nat r)"
  by (simp add: np_index_def)

lemma np_set0_in_range:
  "0 \<le> r \<Longrightarrow> r < int (length m) \<Longrightarrow> np_set0 m r v = Inr (m[nat r := (v, snd (m ! nat r))])"
  by (simp add: np_set0_def np_index_in_range bindE_Inr)

lemma np_set1_in_range:
  "0 \<le> r \<Longrightarrow> r < int (length m) \<Longrightarrow> np_set1 m r v = Inr (m[nat r := (fst (m ! nat r), v)])"
  by (simp add: np_set1_def np_index_in_range bindE_Inr)

lemma np_set_row:
  assumes "0 \<le> r" "r < int (length m)"
  shows "bindE (np_set0 m r x) (\<lambda>m1. bindE (np_set1 m1 r y) f) = f (m[nat r := (x, y)])"
proof -
  have "nat r < length m" using assms by linarith
  then show ?thesis
    using assms by (simp add: np_set0_in_range np_set1_in_range bindE_Inr)
qed

lemma conf_body_in_range:
  assumes "1 \<le> i" "i \<le> conf_points" "length mpts = nat (conf_points * 2)"
  shows "conf_body n conf_alpha ppf conf_points mpts i =
           Inr (mpts[nat (i - 1) := (- log 10 ((of_int i - 0.5) / of_int n),
                                    - log 10 (ppf (1 - conf_alpha / 2) i (n - i))),
                     nat (conf_points * 2 - i) := (- log 10 ((of_int i - 0.5) / of_int n),
                                    - log 10 (ppf (conf_alpha / 2) i (n - i)))])"
proof -
  let ?x = "- log 10 ((of_int i - 0.5) / of_int n)"
  let ?u = "- log 10 (ppf (1 - conf_alpha / 2) i (n - i))"
  let ?l = "- log 10 (ppf (conf_alpha / 2) i (n - i))"
  let ?m2 = "mpts[nat (i - 1) := (?x, ?u)]"
  have r1: "0 \<le> i - 1" "i - 1 < int (length mpts)"
    and r2: "0 \<le> conf_points * 2 - i" "conf_points * 2 - i < int (length ?m2)"
    using assms by auto
  have "conf_body n conf_alpha ppf conf_points mpts i =
          bindE (np_set0 ?m2 (conf_points * 2 - i) ?x) (\<lambda>m3. bindE (np_set1 m3 (conf_points * 2 - i) ?l) Inr)"
    unfolding conf_body_def Let_def by (subst np_set_row[OF r1]) (simp add: bindE_def split: sum.splits)
  also have "\<dots> = Inr (?m2[nat (conf_points * 2 - i) := (?x, ?l)])"
    by (rule np_set_row[OF r2])
  finally show ?thesis .
qed

lemma for_each_conf_body:
  assumes "length m = nat (cp * 2)" "int k \<le> cp"
  shows "\<exists>m'. for_each (conf_body n conf_alpha ppf cp) [1..int k] m = Inr m' \<and> length m' = length m \<and>
           (\<forall>i. 1 \<le> i \<and> i \<le> int k \<longrightarrow>
              m' ! nat (i - 1) = (- log 10 ((of_int i - 0.5) / of_int n),
                                  - log 10 (ppf (1 - conf_alpha / 2) i (n - i))) \<and>
              m' ! nat (cp * 2 - i) = (- log 10 ((of_int i - 0.5) / of_int n),
                                  - log 10 (ppf (conf_alpha / 2) i (n - i))))"
  using assms(2)
proof (induction k)
  case 0
  then show ?case by auto
next
  case (Suc k)
  then obtain m' where m': "for_each (conf_body n conf_alpha ppf cp) [1..int k] m = Inr m'"
      "length m' = length m"
      "\<And>i. 1 \<le> i \<Longrightarrow> i \<le> int k \<Longrightarrow>
              m' ! nat (i - 1) = (- log 10 ((of_int i - 0.5) / of_int n),
                                  - log 10 (ppf (1 - conf_alpha / 2) i (n - i))) \<and>
              m' ! nat (cp * 2 - i) = (- log 10 ((of_int i - 0.5) / of_int n),
                                  - log 10 (ppf (conf_alpha / 2) i (n - i)))"
    by auto
  let ?i = "int (Suc k)"
  have split: "[1..?i] = [1..int k] @ [?i]"
    using upto_rec2[of 1 ?i] by simp
  have step: "conf_body n conf_alpha ppf cp m' ?i =
           Inr (m'[nat (?i - 1) := (- log 10 ((of_int ?i - 0.5) / of_int n),
                                    - log 10 (ppf (1 - conf_alpha / 2) ?i (n - ?i))),
                   nat (cp * 2 - ?i) := (- log 10 ((of_int ?i - 0.5) / of_int n),
                                    - log 10 (ppf (conf_alpha / 2) ?i (n - ?i)))])"
    using Suc.prems assms(1) m'(2) by (intro conf_body_in_range) auto
  have len: "nat (?i - 1) < length m'" "nat (cp * 2 - ?i) < length m'"
    using Suc.prems assms(1) m'(2) by linarith+
  show ?case
  proof (intro exI conjI allI impI)
    show "for_each (conf_body n conf_alpha ppf cp) [1..?i] m = Inr (m'[nat (?i - 1) := (- log 10 ((of_int ?i - 0.5) / of_int n),
                                    - log 10 (ppf (1 - conf_alpha / 2) ?i (n - ?i))),
                   nat (cp * 2 - ?i) := (- log 10 ((of_int ?i - 0.5) / of_int n),
                                    - log 10 (ppf (conf_alpha / 2) ?i (n - ?i)))])"
      unfolding split for_each_append m'(1) bindE_Inr 
      by (simp add: step bindE_Inr del: of_nat_Suc)
  next
    show "length (m'[nat (?i - 1) := (- log 10 ((of_int ?i - 0.5) / of_int n),
                                    - log 10 (ppf (1 - conf_alpha / 2) ?i (n - ?i))),
                   nat (cp * 2 - ?i) := (- log 10 ((of_int ?i - 0.5) / of_int n),
                                    - log 10 (ppf (conf_alpha / 2) ?i (n - ?i)))]) = length m"
      using m'(2) by simp
  next
    fix i assume i: "1 \<le> i \<and> i \<le> ?i"
    show "m'[nat (?i - 1) := (- log 10 ((of_int ?i - 0.5) / of_int n),
                                    - log 10 (ppf (1 - conf_alpha / 2) ?i (n - ?i))),
                   nat (cp * 2 - ?i) := (- log 10 ((of_int ?i - 0.5) / of_int n),
                                    - log 10 (ppf (conf_alpha / 2) ?i (n - ?i)))] ! nat (i - 1) = (- log 10 ((of_int i - 0.5) / of_int n),
                                  - log 10 (ppf (1 - conf_alpha / 2) i (n - i)))"
    proof (cases "i = ?i")
      case True
      have "nat (cp * 2 - ?i) \<noteq> nat (?i - 1)" using Suc.prems by linarith
      then show ?thesis using len True by (simp add: nth_list_update del: of_nat_Suc)
    next
      case False
      then have "i \<le> int k" using i by simp
      moreover have "nat (cp * 2 - ?i) \<noteq> nat (i - 1)" "nat (?i - 1) \<noteq> nat (i - 1)" 
        using Suc.prems i False by linarith+
      ultimately show ?thesis using m'(3)[of i] i by (simp add: nth_list_update del: of_nat_Suc)
    qed
    show "m'[nat (?i - 1) := (- log 10 ((of_int ?i - 0.5) / of_int n),
                                    - log 10 (ppf (1 - conf_alpha / 2) ?i (n - ?i))),
                   nat (cp * 2 - ?i) := (- log 10 ((of_int ?i - 0.5) / of_int n),
                                    - log 10 (ppf (conf_alpha / 2) ?i (n - ?i)))] ! nat (cp * 2 - i) = (- log 10 ((of_int i - 0.5) / of_int n),
                                  - log 10 (ppf (conf_alpha / 2) i (n - i)))"
    proof (cases "i = ?i")
      case True
      then show ?thesis using len by (simp add: nth_list_update del: of_nat_Suc)
    next
      case False
      then have "i \<le> int k" using i by simp
      moreover have "nat (cp * 2 - ?i) \<noteq> nat (cp * 2 - i)" "nat (?i - 1) \<noteq> nat (cp * 2 - i)" 
        using Suc.prems i False by linarith+
      ultimately show ?thesis using m'(3)[of i] i by (simp add: nth_list_update del: of_nat_Suc)
    qed
  qed
qed

lemma beta_cdf_1_1: "beta_cdf (Suc 0) (Suc 0) x = x"
  by (simp add: beta_cdf_def)

lemma beta_cdf_1_2: "beta_cdf (Suc 0) 2 x = 2 * x - x\<^sup>2"
  by (simp add: beta_cdf_def sum.atLeast_Suc_atMost numeral_2_eq_2 algebra_simps power2_eq_square)

lemma beta_ppf_1_1: "0 \<le> q \<Longrightarrow> q \<le> 1 \<Longrightarrow> beta_ppf q 1 1 = q"
  unfolding beta_ppf_def by (rule the_equality) (auto simp: beta_cdf_1_1)

lemma beta_ppf_1_2: 
  assumes "0 \<le> q" "q \<le> 1" shows "beta_ppf q 1 2 = 1 - sqrt (1 - q)"
  unfolding beta_ppf_def 
proof (rule the_equality)
  show "0 \<le> 1 - sqrt (1 - q) \<and> 1 - sqrt (1 - q) \<le> 1 \<and> beta_cdf (nat 1) (nat 2) (1 - sqrt (1 - q)) = q"
    using assms by (simp add: beta_cdf_1_2 power2_eq_square algebra_simps)
next
  fix x assume a: "0 \<le> x \<and> x \<le> 1 \<and> beta_cdf (nat 1) (nat 2) x = q"
  then have "(1 - x)\<^sup>2 = 1 - q" by (simp add: beta_cdf_1_2 power2_eq_square algebra_simps)
  then have "sqrt ((1 - x)\<^sup>2) = sqrt (1 - q)" by simp
  with a show "x = 1 - sqrt (1 - q)" by simp
qed

lemma plot_confidence_interval_rows:
  assumes "0 \<le> min conf_points (n - 1)"
  shows "\<exists>mpts. plot_confidence_interval n conf_points conf_alpha ppf = Inr mpts \<and>
           length mpts = nat (min conf_points (n - 1) * 2) \<and>
           (\<forall>i. 1 \<le> i \<and> i \<le> min conf_points (n - 1) \<longrightarrow>
              mpts ! nat (i - 1) = (- log 10 ((of_int i - 0.5) / of_int n),
                                    - log 10 (ppf (1 - conf_alpha / 2) i (n - i))) \<and>
              mpts ! nat (min conf_points (n - 1) * 2 - i) =
                                   (- log 10 ((of_int i - 0.5) / of_int n),
                                    - log 10 (ppf (conf_alpha / 2) i (n - i))))"
proof -
  let ?cp = "min conf_points (n - 1)"
  let ?m = "replicate (nat (?cp * 2)) (0::real, 0::real)"
  have z: "np_zeros2 (?cp * 2) = Inr ?m"
    using assms by (auto simp: np_zeros2_def)
  have k: "int (nat ?cp) = ?cp" using assms by simp
  from for_each_conf_body[of ?m ?cp "nat ?cp" n conf_alpha ppf]
  show ?thesis
    unfolding plot_confidence_interval_def Let_def z bindE_Inr k by simp
qed

lemma list_of_two: "length xs = 2 \<Longrightarrow> xs = [xs ! 0, xs ! 1]"
  by (cases xs; cases "tl xs") auto

lemma plot_confidence_interval_two:
  "plot_confidence_interval 2 1500 conf_alpha ppf =
     Inr [(- log 10 (1 / 4), - log 10 (ppf (1 - conf_alpha / 2) 1 1)),
          (- log 10 (1 / 4), - log 10 (ppf (conf_alpha / 2) 1 1))]"
proof -
  obtain mpts where m: "plot_confidence_interval 2 1500 conf_alpha ppf = Inr mpts"
     "length mpts = 2"
     "mpts ! 0 = (- log 10 (1 / 4), - log 10 (ppf (1 - conf_alpha / 2) 1 1))"
     "mpts ! 1 = (- log 10 (1 / 4), - log 10 (ppf (conf_alpha / 2) 1 1))"
    using plot_confidence_interval_rows[of 1500 2 conf_alpha ppf] by force
  show ?thesis
    using list_of_two[OF m(2)] m by simp
qed

text \<open>
  Claim C1, as the code has it. For \<open>n > 1\<close> and every rank \<open>i\<close> from 1 to
  \<open>k = min conf_points (n - 1)\<close>, row \<open>i - 1\<close> of the band is
  \<open>(x\<^sub>i, - log10 (ppf (1 - alpha/2) i (n - i)))\<close> and row \<open>2k - i\<close> is
  \<open>(x\<^sub>i, - log10 (ppf (alpha/2) i (n - i)))\<close>, where \<open>x\<^sub>i = - log10 ((i - 0.5) / n)\<close>: the
  second shape parameter handed to the Beta quantile is \<open>n - i\<close>.
\<close>

theorem confidence_band_beta_shapes:
  assumes "1 < n" "1 \<le> i" "i \<le> min conf_points (n - 1)"
  shows "\<exists>mpts. plot_confidence_interval n conf_points conf_alpha ppf = Inr mpts \<and>
           mpts ! nat (i - 1) =
             (- log 10 ((of_int i - 0.5) / of_int n),
              - log 10 (ppf (1 - conf_alpha / 2) i (n - i))) \<and>
           mpts ! nat (min conf_points (n - 1) * 2 - i) =
             (- log 10 ((of_int i - 0.5) / of_int n),
              - log 10 (ppf (conf_alpha / 2) i (n - i)))"
proof -
  have "0 \<le> min conf_points (n - 1)" using assms by simp
  from plot_confidence_interval_rows[OF this, of conf_alpha ppf] assms(2,3)
  show ?thesis by blast
qed

text \<open>The statement at \<open>n = 5\<close>, rank 2, with the budget 1500 and level 0.05 of \<^verbatim>\<open>qq_plot\<close>.\<close>

theorem confidence_band_beta_shapes_witness:
  "(1::int) < 5 \<and> (1::int) \<le> 2 \<and> (2::int) \<le> min 1500 (5 - 1) \<and>
   (\<exists>mpts. plot_confidence_interval 5 1500 (1 / 20) beta_ppf = Inr mpts \<and>
      mpts ! nat (2 - 1) =
        (- log 10 ((of_int 2 - 0.5) / of_int 5), - log 10 (beta_ppf (1 - (1 / 20) / 2) 2 (5 - 2))) \<and>
      mpts ! nat (min 1500 (5 - 1) * 2 - 2) =
        (- log 10 ((of_int 2 - 0.5) / of_int 5), - log 10 (beta_ppf ((1 / 20) / 2) 2 (5 - 2))))"
  using confidence_band_beta_shapes[of 5 2 1500 "1 / 20" beta_ppf] by simp

lemma sqrt_fortieth: "1 / 40 < sqrt (1 / 40)" "sqrt (1 / 40) < 1"
proof -
  show "1 / 40 < sqrt (1 / 40)"
    by (rule real_less_rsqrt) (simp add: power2_eq_square)
  have "sqrt (1 / 40) < sqrt 1" by (subst real_sqrt_less_iff) simp
  then show "sqrt (1 / 40) < 1" by simp
qed

text \<open>
  Claim C1 as stated, with second shape \<open>n - i + 1\<close>, fails at \<open>n = 2\<close>, rank 1: the upper
  bound of the band is \<open>- log10 (39/40)\<close>, from the 0.975-quantile of Beta(1, 1), and the
  0.975-quantile of Beta(1, 2) is a different number.
\<close>

theorem confidence_band_second_shape_counterexample:
  "plot_confidence_interval 2 1500 (1 / 20) beta_ppf =
     Inr [(- log 10 (1 / 4), - log 10 (39 / 40)), (- log 10 (1 / 4), - log 10 (1 / 40))] \<and>
   - log 10 (39 / 40) \<noteq> - log 10 (beta_ppf (1 - (1 / 20) / 2) 1 (2 - 1 + 1))"
proof
  show "plot_confidence_interval 2 1500 (1 / 20) beta_ppf =
     Inr [(- log 10 (1 / 4), - log 10 (39 / 40)), (- log 10 (1 / 4), - log 10 (1 / 40))]"
    by (simp add: plot_confidence_interval_two beta_ppf_1_1)
  have q: "beta_ppf (1 - (1 / 20) / 2) 1 (2 - 1 + 1) = 1 - sqrt (1 / 40)"
    using beta_ppf_1_2[of "39 / 40"] by simp
  have pos: "0 < 1 - sqrt (1 / 40)" using sqrt_fortieth(2) by simp
  have "1 - sqrt (1 / 40) < 39 / 40" using sqrt_fortieth(1) by simp
  then have "log 10 (1 - sqrt (1 / 40)) < log 10 (39 / 40)"
    using pos by (subst log_less_cancel_iff) simp_all
  then show "- log 10 (39 / 40) \<noteq> - log 10 (beta_ppf (1 - (1 / 20) / 2) 1 (2 - 1 + 1))"
    unfolding q by linarith
qed

text \<open>
  Claim C6, as the code has it. For \<open>n > 1\<close> and a budget \<open>b > 0\<close> the band has exactly
  \<open>2 * min b (n - 1)\<close> rows, and at \<open>alpha = 1\<close> the upper and the lower row of every rank
  coincide: both are \<open>(x\<^sub>i, - log10 (ppf (1/2) i (n - i)))\<close>, the median of the Beta
  distribution in place of both bounds.
\<close>

theorem confidence_band_size_and_median:
  assumes "1 < n" "0 < b"
  shows "(\<exists>mpts. plot_confidence_interval n b conf_alpha ppf = Inr mpts \<and>
            length mpts = nat (2 * min b (n - 1))) \<and>
         (\<exists>mpts. plot_confidence_interval n b 1 ppf = Inr mpts \<and>
            (\<forall>i. 1 \<le> i \<and> i \<le> min b (n - 1) \<longrightarrow>
               mpts ! nat (i - 1) =
                 (- log 10 ((of_int i - 0.5) / of_int n), - log 10 (ppf (1 / 2) i (n - i))) \<and>
               mpts ! nat (min b (n - 1) * 2 - i) = mpts ! nat (i - 1)))"
proof -
  have k: "0 \<le> min b (n - 1)" using assms by simp
  show ?thesis
  proof
    from plot_confidence_interval_rows[OF k, of conf_alpha ppf]
    show "\<exists>mpts. plot_confidence_interval n b conf_alpha ppf = Inr mpts \<and>
            length mpts = nat (2 * min b (n - 1))"
      by (auto simp: mult.commute)
    from plot_confidence_interval_rows[OF k, of 1 ppf]
    show "\<exists>mpts. plot_confidence_interval n b 1 ppf = Inr mpts \<and>
            (\<forall>i. 1 \<le> i \<and> i \<le> min b (n - 1) \<longrightarrow>
               mpts ! nat (i - 1) =
                 (- log 10 ((of_int i - 0.5) / of_int n), - log 10 (ppf (1 / 2) i (n - i))) \<and>
               mpts ! nat (min b (n - 1) * 2 - i) = mpts ! nat (i - 1))"
      by auto
  qed
qed

text \<open>The statement at \<open>n = 5\<close> with the budget 1500: eight rows, and rank 2 at \<open>alpha = 1\<close>.\<close>

theorem confidence_band_size_and_median_witness:
  "(1::int) < 5 \<and> (0::int) < 1500 \<and>
   (\<exists>mpts. plot_confidence_interval 5 1500 (1 / 20) beta_ppf = Inr mpts \<and> length mpts = 8) \<and>
   (\<exists>mpts. plot_confidence_interval 5 1500 1 beta_ppf = Inr mpts \<and>
      mpts ! 1 = (- log 10 ((2 - 0.5) / 5), - log 10 (beta_ppf (1 / 2) 2 3)) \<and>
      mpts ! 6 = mpts ! 1)"
proof -
  from confidence_band_size_and_median[of 5 1500 "1 / 20" beta_ppf]
  obtain m1 m2 where
    m1: "plot_confidence_interval 5 1500 (1 / 20) beta_ppf = Inr m1" "length m1 = 8" and
    m2: "plot_confidence_interval 5 1500 1 beta_ppf = Inr m2"
        "\<forall>i. 1 \<le> i \<and> i \<le> min 1500 (5 - 1) \<longrightarrow>
           m2 ! nat (i - 1) =
             (- log 10 ((of_int i - 0.5) / of_int 5), - log 10 (beta_ppf (1 / 2) i (5 - i))) \<and>
           m2 ! nat (min 1500 (5 - 1) * 2 - i) = m2 ! nat (i - 1)"
    by auto
  from m2(2)[rule_format, of 2]
  have "m2 ! 1 = (- log 10 ((2 - 0.5) / 5), - log 10 (beta_ppf (1 / 2) 2 3)) \<and> m2 ! 6 = m2 ! 1"
    by simp
  with m1 m2(1) show ?thesis by auto
qed

text \<open>
  Claim C6 as stated also equates the common bound with \<open>x\<^sub>i\<close>. At \<open>n = 2\<close>, rank 1, the
  bound is \<open>- log10 (1/2)\<close>, from the median of Beta(1, 1), and \<open>x\<^sub>1 = - log10 (1/4)\<close>.
\<close>

theorem confidence_band_alpha_one_counterexample:
  "plot_confidence_interval 2 1500 1 beta_ppf =
     Inr [(- log 10 (1 / 4), - log 10 (1 / 2)), (- log 10 (1 / 4), - log 10 (1 / 2))] \<and>
   - log 10 (1 / 2) \<noteq> - log 10 (1 / 4 :: real)"
proof -
  have "log 10 (1 / 4) < log 10 (1 / 2 :: real)"
    by (subst log_less_cancel_iff) simp_all
  then have "- log 10 (1 / 2) \<noteq> - log 10 (1 / 4 :: real)"
    by linarith
  moreover have "plot_confidence_interval 2 1500 1 beta_ppf =
     Inr [(- log 10 (1 / 4), - log 10 (1 / 2)), (- log 10 (1 / 4), - log 10 (1 / 2))]"
    by (simp add: plot_confidence_interval_two beta_ppf_1_1)
  ultimately show ?thesis by blast
qed

section \<open>Properties of the coordinate transformer\<close>

lemma int64_cong: "x mod 2 ^ 64 = y mod 2 ^ 64 \<Longrightarrow> int64 x = int64 y"
  unfolding int64_def by (metis mod_add_cong)

lemma int64_mod: "int64 x mod 2 ^ 64 = x mod 2 ^ 64"
proof -
  have "int64 x = (x + 2 ^ 63) mod 2 ^ 64 + - (2 ^ 63)" by (simp add: int64_def)
  also have "\<dots> mod 2 ^ 64 = ((x + 2 ^ 63) + - (2 ^ 63)) mod 2 ^ 64"
    by (rule mod_add_left_eq)
  finally show ?thesis by simp
qed

lemma int64_add_left: "int64 (int64 a + b) = int64 (a + b)"
  by (rule int64_cong) (metis int64_mod mod_add_left_eq)

lemma int64_add_right: "int64 (a + int64 b) = int64 (a + b)"
  by (rule int64_cong) (metis int64_mod mod_add_right_eq)

lemma int64_diff_left: "int64 (int64 a - b) = int64 (a - b)"
  by (rule int64_cong) (metis int64_mod mod_diff_left_eq)

lemma int64_id: "- (2 ^ 63) \<le> x \<Longrightarrow> x < 2 ^ 63 \<Longrightarrow> int64 x = x"
  by (simp add: int64_def)

lemma insort_key_map:
  "insort_key f (g x) (map g ys) = map g (insort_key (\<lambda>y. f (g y)) x ys)"
  by (induction ys) auto

lemma sort_key_map:
  "sort_key f (map g xs) = map g (sort_key (\<lambda>y. f (g y)) xs)"
  by (induction xs) (auto simp: insort_key_map)

lemma chr_grouped_eq:
  "chr_grouped chr_col pos_col data =
     map (\<lambda>c. (c, Max (set (map pos_col (filter (\<lambda>r. chr_col r = c) data)))))
         (sort (remdups (map chr_col data)))"
  by (simp add: chr_grouped_def groupby_def comp_def)

lemma offsets_strict_sorted:
  "sorted_wrt (<) (ks :: 'k::linorder list) \<Longrightarrow>
   zip ks (map2 (\<lambda>total chrlength. int64 (total - chrlength))
             (cumsum_from acc (map f ks)) (map f ks)) =
   map (\<lambda>c. (c, int64 (acc + sum_list (map f (filter (\<lambda>c'. c' < c) ks))))) ks"
proof (induction ks arbitrary: acc)
  case Nil
  then show ?case by simp
next
  case (Cons k ks)
  have lt: "\<And>c. c \<in> set ks \<Longrightarrow> k < c" using Cons.prems by simp
  have "map (\<lambda>c. (c, int64 (acc + sum_list (map f (filter (\<lambda>c'. c' < c) (k # ks)))))) ks =
        map (\<lambda>c. (c, int64 (int64 (acc + f k) + sum_list (map f (filter (\<lambda>c'. c' < c) ks))))) ks"
    using lt by (intro map_cong) (auto simp: int64_add_left add.assoc)
  moreover have "filter (\<lambda>c'. c' < k) ks = []"
    using lt by (fastforce simp: filter_empty_conv dest: less_asym)
  moreover have "int64 (int64 (acc + f k) - f k) = int64 acc"
    by (simp add: int64_diff_left)
  ultimately show ?case
    using Cons.IH[of "int64 (acc + f k)"] Cons.prems by simp
qed

lemma cumulativechrlength_eq:
  assumes "sorted_wrt (<) (ks :: 'k::linorder list)"
  shows "cumulativechrlength (map (\<lambda>c. (c, f c)) ks) =
         map (\<lambda>c. (c, int64 (sum_list (map f (filter (\<lambda>c'. c' < c) ks))))) ks"
  using offsets_strict_sorted[OF assms, of 0 f]
  by (simp add: cumulativechrlength_def cumsum_def comp_def)

lemma merge_inner_lookup:
  assumes "distinct ks" "\<And>l. l \<in> set left \<Longrightarrow> lkey l \<in> set ks"
  shows "merge_inner lkey fst left (map (\<lambda>c. (c, g c)) ks) = map (\<lambda>l. (l, lkey l, g (lkey l))) left"
proof -
  have one: "filter (\<lambda>r. fst r = c) (map (\<lambda>c. (c, g c)) ks) = [(c, g c)]" if "c \<in> set ks" for c
    using assms(1) that
  proof (induction ks)
    case Nil then show ?case by simp
  next
    case (Cons k ks)
    then show ?case by (auto simp: filter_empty_conv)
  qed
  show ?thesis
    using assms(2) by (induction left) (auto simp: merge_inner_def one)
qed

lemma compute_relative_pos_eq:
  "compute_relative_pos data chrom POS pval =
     map (\<lambda>r. \<lparr>base = r, rel_pos = int64 (POS r + cumulative_offset data (chrom r)),
                log10p = neg_log10 (pval r)\<rparr>)
         (sort_key (\<lambda>r. (chrom r, POS r)) data)"
proof -
  let ?ks = "sort (remdups (map chrom data))"
  have ss: "sorted_wrt (<) ?ks"
    by (simp add: strict_sorted_iff)
  have "merge_inner chrom fst data (cumulativechrlength (chr_grouped chrom POS data)) =
        map (\<lambda>l. (l, chrom l, int64 (cumulative_offset data (chrom l)))) data"
    unfolding chr_grouped_eq cumulativechrlength_eq[OF ss]
    by (subst merge_inner_lookup) (auto simp: cumulative_offset_def chrom_length_def[abs_def])
  then show ?thesis
    by (simp add: compute_relative_pos_def Let_def sort_key_map comp_def int64_add_right)
qed

lemma scenario_rel_pos:
  "map rel_pos (compute_relative_pos scenario_table chrom POS pval) = [100, 200, 250, 500]"
  by (simp add: compute_relative_pos_eq scenario_table_def cumulative_offset_def chrom_length_def
      int64_def)

lemma chrom_length_ge:
  "r \<in> set data \<Longrightarrow> POS r \<le> chrom_length data (chrom r)"
  unfolding chrom_length_def by (rule Max_ge) auto

lemma chrom_length_nonneg:
  assumes "\<forall>r \<in> set data. 0 \<le> POS r" "c \<in> chrom ` set data"
  shows "0 \<le> chrom_length data c"
proof -
  from assms(2) obtain r where r: "r \<in> set data" "chrom r = c" by auto
  then have "0 \<le> POS r" using assms(1) by simp
  also have "POS r \<le> chrom_length data c" using chrom_length_ge[OF r(1)] r(2) by simp
  finally show ?thesis .
qed

lemma cumulative_offset_sum:
  "cumulative_offset data c = sum (chrom_length data) {k \<in> chrom ` set data. k < c}"
proof -
  have "distinct (filter (\<lambda>c'. c' < c) (sort (remdups (map chrom data))))"
    by simp
  then show ?thesis
    unfolding cumulative_offset_def
    by (subst sum_list_distinct_conv_sum_set) (auto intro: sum.cong)
qed

lemma genome_length_sum:
  "genome_length data = sum (chrom_length data) (chrom ` set data)"
proof -
  have "distinct (sort (remdups (map chrom data)))" by simp
  then show ?thesis
    unfolding genome_length_def
    by (subst sum_list_distinct_conv_sum_set) (auto intro: sum.cong)
qed

lemma cumulative_offset_nonneg:
  assumes "\<forall>r \<in> set data. 0 \<le> POS r"
  shows "0 \<le> cumulative_offset data c"
  unfolding cumulative_offset_sum
  by (rule sum_nonneg) (use chrom_length_nonneg[OF assms] in auto)

lemma cumulative_offset_step:
  assumes "\<forall>r \<in> set data. 0 \<le> POS r" "c1 \<in> chrom ` set data" "c1 < c2"
  shows "cumulative_offset data c1 + chrom_length data c1 \<le> cumulative_offset data c2"
proof -
  let ?A = "{k \<in> chrom ` set data. k < c1}"
  let ?B = "{k \<in> chrom ` set data. k < c2}"
  have "cumulative_offset data c1 + chrom_length data c1 = sum (chrom_length data) (insert c1 ?A)"
    unfolding cumulative_offset_sum by (subst sum.insert) auto
  also have "\<dots> \<le> sum (chrom_length data) ?B"
    by (rule sum_mono2) (use assms chrom_length_nonneg[OF assms(1)] in auto)
  finally show ?thesis unfolding cumulative_offset_sum .
qed

lemma cumulative_offset_total:
  assumes "\<forall>r \<in> set data. 0 \<le> POS r" "c \<in> chrom ` set data"
  shows "cumulative_offset data c + chrom_length data c \<le> genome_length data"
proof -
  let ?A = "{k \<in> chrom ` set data. k < c}"
  have "cumulative_offset data c + chrom_length data c = sum (chrom_length data) (insert c ?A)"
    unfolding cumulative_offset_sum by (subst sum.insert) auto
  also have "\<dots> \<le> sum (chrom_length data) (chrom ` set data)"
    by (rule sum_mono2) (use assms chrom_length_nonneg[OF assms(1)] in auto)
  finally show ?thesis unfolding genome_length_sum .
qed

lemma rel_pos_exact:
  assumes "\<forall>r \<in> set data. 0 \<le> POS r" "genome_length data < 2 ^ 63"
    and "r \<in> set (compute_relative_pos data chrom POS pval)"
  shows "base r \<in> set data" "rel_pos r = POS (base r) + cumulative_offset data (chrom (base r))"
proof -
  from assms(3) obtain b where b: "b \<in> set data" "base r = b"
      "rel_pos r = int64 (POS b + cumulative_offset data (chrom b))"
    by (auto simp: compute_relative_pos_eq)
  show "base r \<in> set data" using b by simp
  have "0 \<le> POS b" using assms(1) b(1) by simp
  moreover have "0 \<le> cumulative_offset data (chrom b)"
    by (rule cumulative_offset_nonneg[OF assms(1)])
  moreover have "POS b + cumulative_offset data (chrom b) \<le> genome_length data"
    using chrom_length_ge[OF b(1)] cumulative_offset_total[OF assms(1), of "chrom b"] b(1)
    by auto
  ultimately have "int64 (POS b + cumulative_offset data (chrom b)) =
      POS b + cumulative_offset data (chrom b)"
    using assms(2) by (intro int64_id) linarith+
  then show "rel_pos r = POS (base r) + cumulative_offset data (chrom (base r))"
    using b by simp
qed

lemma boundary_rows:
  "compute_relative_pos boundary_table chrom POS pval =
     [\<lparr>base = \<lparr>SNP = ''rs5'', chrom = 1, POS = 200, pval = 1 / 2, split_by = None\<rparr>,
        rel_pos = 200, log10p = neg_log10 (1 / 2)\<rparr>,
      \<lparr>base = \<lparr>SNP = ''rs6'', chrom = 2, POS = 0, pval = 1 / 2, split_by = None\<rparr>,
        rel_pos = 200, log10p = neg_log10 (1 / 2)\<rparr>]"
  by (simp add: compute_relative_pos_eq boundary_table_def cumulative_offset_def chrom_length_def
      int64_def)

text \<open>
  Claim C4. \<^verbatim>\<open>compute_relative_pos\<close> returns the rows sorted by chromosome and position, and
  gives each row the int64 sum of its position and the cumulative offset of its chromosome: the
  sum of the largest positions of the chromosomes that sort before it. Where the sum lies in the
  int64 range the relative position is the sum itself. On the table with chromosomes
  \<open>[1, 1, 2, 2]\<close> and positions \<open>[100, 200, 50, 300]\<close> the relative positions are
  \<open>[100, 200, 250, 500]\<close>.
\<close>

theorem compute_relative_pos_offsets:
  "map base (compute_relative_pos data chrom POS pval) = sort_key (\<lambda>r. (chrom r, POS r)) data \<and>
   (\<forall>r \<in> set (compute_relative_pos data chrom POS pval).
      rel_pos r = int64 (POS (base r) + cumulative_offset data (chrom (base r))) \<and>
      (- (2 ^ 63) \<le> POS (base r) + cumulative_offset data (chrom (base r)) \<and>
       POS (base r) + cumulative_offset data (chrom (base r)) < 2 ^ 63 \<longrightarrow>
       rel_pos r = POS (base r) + cumulative_offset data (chrom (base r)))) \<and>
   map rel_pos (compute_relative_pos scenario_table chrom POS pval) = [100, 200, 250, 500]"
proof (intro conjI)
  show "map base (compute_relative_pos data chrom POS pval) = sort_key (\<lambda>r. (chrom r, POS r)) data"
    by (simp add: compute_relative_pos_eq comp_def)
  show "\<forall>r \<in> set (compute_relative_pos data chrom POS pval).
      rel_pos r = int64 (POS (base r) + cumulative_offset data (chrom (base r))) \<and>
      (- (2 ^ 63) \<le> POS (base r) + cumulative_offset data (chrom (base r)) \<and>
       POS (base r) + cumulative_offset data (chrom (base r)) < 2 ^ 63 \<longrightarrow>
       rel_pos r = POS (base r) + cumulative_offset data (chrom (base r)))"
    by (auto simp: compute_relative_pos_eq int64_id)
  show "map rel_pos (compute_relative_pos scenario_table chrom POS pval) = [100, 200, 250, 500]"
    by (rule scenario_rel_pos)
qed

text \<open>The statement at the row \<^verbatim>\<open>rs3\<close> of the scenario table.\<close>

theorem compute_relative_pos_offsets_witness:
  "\<lparr>base = \<lparr>SNP = ''rs3'', chrom = 2, POS = 50, pval = 1 / 100, split_by = None\<rparr>,
     rel_pos = 250, log10p = neg_log10 (1 / 100)\<rparr>
     \<in> set (compute_relative_pos scenario_table chrom POS pval) \<and>
   - (2 ^ 63) \<le> 50 + cumulative_offset scenario_table 2 \<and>
   50 + cumulative_offset scenario_table 2 < 2 ^ 63 \<and>
   (250 :: int) = 50 + cumulative_offset scenario_table 2"
proof -
  let ?r = "\<lparr>base = \<lparr>SNP = ''rs3'', chrom = 2 :: int, POS = 50, pval = 1 / 100, split_by = None\<rparr>,
     rel_pos = 250, log10p = neg_log10 (1 / 100)\<rparr>"
  have m: "?r \<in> set (compute_relative_pos scenario_table chrom POS pval)"
    by (simp add: compute_relative_pos_eq scenario_table_def cumulative_offset_def chrom_length_def
        int64_def)
  have c: "cumulative_offset scenario_table 2 = 200"
    by (simp add: scenario_table_def cumulative_offset_def chrom_length_def)
  from compute_relative_pos_offsets[of scenario_table]
  have "\<forall>r \<in> set (compute_relative_pos scenario_table chrom POS pval).
      rel_pos r = int64 (POS (base r) + cumulative_offset scenario_table (chrom (base r))) \<and>
      (- (2 ^ 63) \<le> POS (base r) + cumulative_offset scenario_table (chrom (base r)) \<and>
       POS (base r) + cumulative_offset scenario_table (chrom (base r)) < 2 ^ 63 \<longrightarrow>
       rel_pos r = POS (base r) + cumulative_offset scenario_table (chrom (base r)))"
    by blast
  from bspec[OF this m] m c show ?thesis by simp
qed

text \<open>
  Claim C4 as stated holds for every table. With the position \<open>2\<^sup>6\<^sup>3 - 1\<close> on chromosome 1 and the
  position 1 on chromosome 2, the offset of chromosome 2 is \<open>2\<^sup>6\<^sup>3 - 1\<close> and the sum \<open>2\<^sup>6\<^sup>3\<close> wraps:
  the relative position of the second row is \<open>- 2\<^sup>6\<^sup>3\<close>.
\<close>

theorem compute_relative_pos_overflow_counterexample:
  "map (POS \<circ> base) (compute_relative_pos overflow_table chrom POS pval) = [2 ^ 63 - 1, 1] \<and>
   map (chrom \<circ> base) (compute_relative_pos overflow_table chrom POS pval) = [1, 2] \<and>
   cumulative_offset overflow_table 2 = 2 ^ 63 - 1 \<and>
   map rel_pos (compute_relative_pos overflow_table chrom POS pval) = [2 ^ 63 - 1, - (2 ^ 63)]"
  by (simp add: compute_relative_pos_eq overflow_table_def cumulative_offset_def chrom_length_def
      int64_def comp_def)

text \<open>
  Claim C7, for tables whose positions are non-negative and whose chromosome lengths sum to
  less than \<open>2\<^sup>6\<^sup>3\<close>: every relative position is non-negative, and is at least the relative
  position of every row on an earlier chromosome, strictly so when the later row's own position
  is positive.
\<close>

theorem relative_pos_order:
  assumes "\<forall>r \<in> set data. 0 \<le> POS r" "genome_length data < 2 ^ 63"
  shows "\<forall>r2 \<in> set (compute_relative_pos data chrom POS pval).
           0 \<le> rel_pos r2 \<and>
           (\<forall>r1 \<in> set (compute_relative_pos data chrom POS pval).
              chrom (base r1) < chrom (base r2) \<longrightarrow>
                rel_pos r1 \<le> rel_pos r2 \<and> (0 < POS (base r2) \<longrightarrow> rel_pos r1 < rel_pos r2))"
proof (intro ballI conjI impI)
  fix r2 assume r2: "r2 \<in> set (compute_relative_pos data chrom POS pval)"
  note b2 = rel_pos_exact[OF assms r2]
  show "0 \<le> rel_pos r2"
    using b2 assms(1) cumulative_offset_nonneg[OF assms(1), of "chrom (base r2)"] by auto
  fix r1 assume r1: "r1 \<in> set (compute_relative_pos data chrom POS pval)"
    and lt: "chrom (base r1) < chrom (base r2)"
  note b1 = rel_pos_exact[OF assms r1]
  have "rel_pos r1 \<le> cumulative_offset data (chrom (base r1)) + chrom_length data (chrom (base r1))"
    using chrom_length_ge[OF b1(1)] b1(2) by simp
  also have "\<dots> \<le> cumulative_offset data (chrom (base r2))"
    using cumulative_offset_step[OF assms(1), of "chrom (base r1)" "chrom (base r2)"] b1(1) lt
    by auto
  finally have le: "rel_pos r1 \<le> cumulative_offset data (chrom (base r2))" .
  show "rel_pos r1 \<le> rel_pos r2"
    using le b2 assms(1) by auto
  show "rel_pos r1 < rel_pos r2" if "0 < POS (base r2)"
    using le b2 that by auto
qed

text \<open>The statement at the rows \<^verbatim>\<open>rs2\<close> and \<^verbatim>\<open>rs3\<close> of the scenario table.\<close>

theorem relative_pos_order_witness:
  "list_all (\<lambda>r. 0 \<le> POS r) scenario_table \<and> genome_length scenario_table < 2 ^ 63 \<and>
   \<lparr>base = \<lparr>SNP = ''rs2'', chrom = 1, POS = 200, pval = 1 / 2, split_by = None\<rparr>,
     rel_pos = 200, log10p = neg_log10 (1 / 2)\<rparr>
     \<in> set (compute_relative_pos scenario_table chrom POS pval) \<and>
   \<lparr>base = \<lparr>SNP = ''rs3'', chrom = 2, POS = 50, pval = 1 / 100, split_by = None\<rparr>,
     rel_pos = 250, log10p = neg_log10 (1 / 100)\<rparr>
     \<in> set (compute_relative_pos scenario_table chrom POS pval) \<and>
   (0 :: int) \<le> 250 \<and> (200 :: int) < 250"
proof -
  let ?r1 = "\<lparr>base = \<lparr>SNP = ''rs2'', chrom = 1 :: int, POS = 200, pval = 1 / 2, split_by = None\<rparr>,
     rel_pos = 200, log10p = neg_log10 (1 / 2)\<rparr>"
  let ?r2 = "\<lparr>base = \<lparr>SNP = ''rs3'', chrom = 2 :: int, POS = 50, pval = 1 / 100, split_by = None\<rparr>,
     rel_pos = 250, log10p = neg_log10 (1 / 100)\<rparr>"
  have h: "\<forall>r \<in> set scenario_table. 0 \<le> POS r"
    by (simp add: scenario_table_def)
  have g: "genome_length scenario_table < 2 ^ 63"
    by (simp add: genome_length_def scenario_table_def chrom_length_def)
  have m1: "?r1 \<in> set (compute_relative_pos scenario_table chrom POS pval)"
    by (simp add: compute_relative_pos_eq scenario_table_def cumulative_offset_def chrom_length_def
        int64_def)
  have m2: "?r2 \<in> set (compute_relative_pos scenario_table chrom POS pval)"
    by (simp add: compute_relative_pos_eq scenario_table_def cumulative_offset_def chrom_length_def
        int64_def)
  from bspec[OF relative_pos_order[OF h g] m2]
  have "0 \<le> rel_pos ?r2 \<and> (chrom (base ?r1) < chrom (base ?r2) \<longrightarrow>
          rel_pos ?r1 \<le> rel_pos ?r2 \<and> (0 < POS (base ?r2) \<longrightarrow> rel_pos ?r1 < rel_pos ?r2))"
    using m1 by blast
  then show ?thesis
    using h g m1 m2 by (simp add: list_all_iff)
qed

text \<open>
  Claim C7 as stated asks for a strict inequality for every table. A row at position 0 on
  chromosome 2 gets the relative position of the last row of chromosome 1.
\<close>

theorem relative_pos_not_strict_counterexample:
  "map (chrom \<circ> base) (compute_relative_pos boundary_table chrom POS pval) = [1, 2] \<and>
   map rel_pos (compute_relative_pos boundary_table chrom POS pval) = [200, 200]"
  by (simp add: boundary_rows)

section \<open>Properties of the classifier\<close>

lemma set_type_simps:
  "map SNP (set_type t rows) = map SNP rows"
  "length (set_type t rows) = length rows"
  "drop_type (set_type t rows) = drop_type rows"
  by (simp_all add: set_type_def drop_type_def comp_def)

lemma of_type_set_type:
  "of_type t (set_type t' rows) = (if t = t' then set_type t' rows else [])"
  by (induction rows) (auto simp: of_type_def set_type_def)

lemma of_type_append: "of_type t (xs @ ys) = of_type t xs @ of_type t ys"
  by (simp add: of_type_def)

lemma classify_groups:
  "of_type ''on_both'' (classify_annotations df_top df_bottom) =
     set_type ''on_both'' (map fst (merge_inner SNP id df_top (map SNP df_bottom)))"
  "of_type ''top_in_bottom'' (classify_annotations df_top df_bottom) =
     set_type ''top_in_bottom'' (filter (\<lambda>r. SNP r \<notin> ids df_bottom) df_top)"
  "of_type ''bottom_in_top'' (classify_annotations df_top df_bottom) =
     set_type ''bottom_in_top'' (filter (\<lambda>r. SNP r \<notin> ids df_top) df_bottom)"
  by (simp_all add: classify_annotations_def Let_def of_type_append of_type_set_type ids_def)

lemma set_merge_inner:
  "set (map fst (merge_inner lkey id left right)) = {l \<in> set left. lkey l \<in> set right}"
  by (induction left) (force simp: merge_inner_def)+

lemma filter_eq_distinct:
  "distinct xs \<Longrightarrow> filter (\<lambda>r. r = s) xs = (if s \<in> set xs then [s] else [])"
  by (induction xs) auto

lemma merge_inner_distinct:
  assumes "distinct right"
  shows "map fst (merge_inner lkey id left right) = filter (\<lambda>l. lkey l \<in> set right) left"
  by (induction left) (auto simp: merge_inner_def filter_eq_distinct[OF assms])

lemma classify_ids:
  "ids (of_type ''on_both'' (classify_annotations df_top df_bottom)) = ids df_top \<inter> ids df_bottom"
  "ids (of_type ''top_in_bottom'' (classify_annotations df_top df_bottom)) = ids df_top - ids df_bottom"
  "ids (of_type ''bottom_in_top'' (classify_annotations df_top df_bottom)) = ids df_bottom - ids df_top"
proof -
  have "ids (of_type ''on_both'' (classify_annotations df_top df_bottom)) =
          SNP ` set (map fst (merge_inner SNP id df_top (map SNP df_bottom)))"
    unfolding classify_groups ids_def set_type_simps by (simp add: image_image)
  also have "\<dots> = SNP ` {l \<in> set df_top. SNP l \<in> set (map SNP df_bottom)}"
    by (simp only: set_merge_inner)
  also have "\<dots> = ids df_top \<inter> ids df_bottom"
    by (auto simp: ids_def)
  finally show "ids (of_type ''on_both'' (classify_annotations df_top df_bottom)) =
      ids df_top \<inter> ids df_bottom" .
  show "ids (of_type ''top_in_bottom'' (classify_annotations df_top df_bottom)) = ids df_top - ids df_bottom"
    unfolding classify_groups ids_def set_type_simps by auto
  show "ids (of_type ''bottom_in_top'' (classify_annotations df_top df_bottom)) = ids df_bottom - ids df_top"
    unfolding classify_groups ids_def set_type_simps by auto
qed

lemma card_three_parts:
  assumes "finite T" "finite B"
  shows "card (T \<inter> B) + card (T - B) + card (B - T) = card (T \<union> B)"
proof -
  have "card (T \<union> B) = card ((T \<inter> B) \<union> (T - B) \<union> (B - T))"
    by (rule arg_cong[where f = card]) auto
  also have "\<dots> = card ((T \<inter> B) \<union> (T - B)) + card (B - T)"
    using assms by (intro card_Un_disjoint) auto
  also have "card ((T \<inter> B) \<union> (T - B)) = card (T \<inter> B) + card (T - B)"
    using assms by (intro card_Un_disjoint) auto
  finally show ?thesis by simp
qed

lemma classify_id_counts:
  "card (ids (of_type ''on_both'' (classify_annotations df_top df_bottom))) +
   card (ids (of_type ''top_in_bottom'' (classify_annotations df_top df_bottom))) +
   card (ids (of_type ''bottom_in_top'' (classify_annotations df_top df_bottom))) =
   card (ids df_top \<union> ids df_bottom)"
  unfolding classify_ids by (rule card_three_parts) (simp_all add: ids_def)

lemma length_filter_distinct_ids:
  assumes "distinct (map SNP rows)"
  shows "length (filter P rows) = card (SNP ` {r \<in> set rows. P r})"
proof -
  have "distinct (map SNP (filter P rows))"
    using assms by (rule distinct_map_filter)
  from distinct_card[OF this] show ?thesis by simp
qed

lemma classify_sizes:
  assumes "distinct (map SNP df_top)" "distinct (map SNP df_bottom)"
  shows "length (of_type ''on_both'' (classify_annotations df_top df_bottom)) +
         length (of_type ''top_in_bottom'' (classify_annotations df_top df_bottom)) +
         length (of_type ''bottom_in_top'' (classify_annotations df_top df_bottom)) =
         card (ids df_top \<union> ids df_bottom)"
proof -
  let ?T = "ids df_top" and ?B = "ids df_bottom"
  have a: "length (of_type ''on_both'' (classify_annotations df_top df_bottom)) = card (?T \<inter> ?B)"
    unfolding classify_groups set_type_simps merge_inner_distinct[OF assms(2)]
      length_filter_distinct_ids[OF assms(1)] ids_def
    by (rule arg_cong[where f = card]) auto
  have b: "length (of_type ''top_in_bottom'' (classify_annotations df_top df_bottom)) = card (?T - ?B)"
    unfolding classify_groups set_type_simps length_filter_distinct_ids[OF assms(1)] ids_def
    using assms(1) by (intro arg_cong[where f = card]) (auto simp: distinct_map inj_on_def)
  have c: "length (of_type ''bottom_in_top'' (classify_annotations df_top df_bottom)) = card (?B - ?T)"
    unfolding classify_groups set_type_simps length_filter_distinct_ids[OF assms(2)] ids_def
    using assms(2) by (intro arg_cong[where f = card]) (auto simp: distinct_map inj_on_def)
  have fin: "finite ?T" "finite ?B" by (simp_all add: ids_def)
  from card_three_parts[OF fin] a b c show ?thesis by simp
qed

lemma classify_whole:
  "classify_annotations df_top df_bottom =
     of_type ''on_both'' (classify_annotations df_top df_bottom) @
     of_type ''top_in_bottom'' (classify_annotations df_top df_bottom) @
     of_type ''bottom_in_top'' (classify_annotations df_top df_bottom)"
  unfolding classify_groups by (simp add: classify_annotations_def Let_def ids_def)

lemma classify_on_both_rows:
  "set (of_type ''on_both'' (classify_annotations df_top df_bottom)) =
     set (set_type ''on_both'' (filter (\<lambda>r. SNP r \<in> ids df_bottom) df_top))"
proof -
  have "set (set_type ''on_both'' (map fst (merge_inner SNP id df_top (map SNP df_bottom)))) =
        (\<lambda>r. r\<lparr>type_tag := Some ''on_both''\<rparr>) `
          set (map fst (merge_inner SNP id df_top (map SNP df_bottom)))"
    by (simp only: set_type_def set_map)
  also have "\<dots> = (\<lambda>r. r\<lparr>type_tag := Some ''on_both''\<rparr>) `
          {l \<in> set df_top. SNP l \<in> set (map SNP df_bottom)}"
    by (simp only: set_merge_inner)
  also have "\<dots> = set (set_type ''on_both'' (filter (\<lambda>r. SNP r \<in> ids df_bottom) df_top))"
    by (simp add: set_type_def ids_def)
  finally show ?thesis
    unfolding classify_groups .
qed

lemma classify_empty:
  "classify_annotations [] [] = []"
  "classify_annotations df_top [] = set_type ''top_in_bottom'' df_top"
  "classify_annotations [] df_bottom = set_type ''bottom_in_top'' df_bottom"
  by (simp_all add: classify_annotations_def Let_def merge_inner_def set_type_def)

text \<open>
  Claim C3. For every pair of annotation tables the classified frame consists of three groups.
  The identifiers of \<^verbatim>\<open>on_both\<close> are those present in both tables, and its rows are the rows of
  the top table with such an identifier; \<^verbatim>\<open>top_in_bottom\<close> holds the rows of the top table whose
  identifier is absent from the bottom table, and \<^verbatim>\<open>bottom_in_top\<close> the rows of the bottom table
  whose identifier is absent from the top table. The three identifier sets are pairwise disjoint,
  their union is the union of the identifiers of the two tables, and their sizes add up to the
  size of that union. When no identifier is repeated within a table the three row counts add up
  to it as well. With an empty table on one side the other table passes through whole, and
  nothing is raised.
\<close>

theorem classify_annotations_partition:
  "ids (of_type ''on_both'' (classify_annotations df_top df_bottom)) = ids df_top \<inter> ids df_bottom \<and>
   ids (of_type ''top_in_bottom'' (classify_annotations df_top df_bottom)) = ids df_top - ids df_bottom \<and>
   ids (of_type ''bottom_in_top'' (classify_annotations df_top df_bottom)) = ids df_bottom - ids df_top \<and>
   ids (of_type ''on_both'' (classify_annotations df_top df_bottom)) \<inter>
     ids (of_type ''top_in_bottom'' (classify_annotations df_top df_bottom)) = {} \<and>
   ids (of_type ''on_both'' (classify_annotations df_top df_bottom)) \<inter>
     ids (of_type ''bottom_in_top'' (classify_annotations df_top df_bottom)) = {} \<and>
   ids (of_type ''top_in_bottom'' (classify_annotations df_top df_bottom)) \<inter>
     ids (of_type ''bottom_in_top'' (classify_annotations df_top df_bottom)) = {} \<and>
   ids (of_type ''on_both'' (classify_annotations df_top df_bottom)) \<union>
     ids (of_type ''top_in_bottom'' (classify_annotations df_top df_bottom)) \<union>
     ids (of_type ''bottom_in_top'' (classify_annotations df_top df_bottom)) =
     ids df_top \<union> ids df_bottom \<and>
   card (ids (of_type ''on_both'' (classify_annotations df_top df_bottom))) +
     card (ids (of_type ''top_in_bottom'' (classify_annotations df_top df_bottom))) +
     card (ids (of_type ''bottom_in_top'' (classify_annotations df_top df_bottom))) =
     card (ids df_top \<union> ids df_bottom) \<and>
   classify_annotations df_top df_bottom =
     of_type ''on_both'' (classify_annotations df_top df_bottom) @
     of_type ''top_in_bottom'' (classify_annotations df_top df_bottom) @
     of_type ''bottom_in_top'' (classify_annotations df_top df_bottom) \<and>
   set (of_type ''on_both'' (classify_annotations df_top df_bottom)) =
     set (set_type ''on_both'' (filter (\<lambda>r. SNP r \<in> ids df_bottom) df_top)) \<and>
   of_type ''top_in_bottom'' (classify_annotations df_top df_bottom) =
     set_type ''top_in_bottom'' (filter (\<lambda>r. SNP r \<notin> ids df_bottom) df_top) \<and>
   of_type ''bottom_in_top'' (classify_annotations df_top df_bottom) =
     set_type ''bottom_in_top'' (filter (\<lambda>r. SNP r \<notin> ids df_top) df_bottom) \<and>
   (distinct (map SNP df_top) \<and> distinct (map SNP df_bottom) \<longrightarrow>
      length (of_type ''on_both'' (classify_annotations df_top df_bottom)) +
      length (of_type ''top_in_bottom'' (classify_annotations df_top df_bottom)) +
      length (of_type ''bottom_in_top'' (classify_annotations df_top df_bottom)) =
      card (ids df_top \<union> ids df_bottom)) \<and>
   classify_annotations [] [] = [] \<and>
   classify_annotations df_top [] = set_type ''top_in_bottom'' df_top \<and>
   classify_annotations [] df_bottom = set_type ''bottom_in_top'' df_bottom"
proof (intro conjI impI)
  show "classify_annotations df_top df_bottom =
     of_type ''on_both'' (classify_annotations df_top df_bottom) @
     of_type ''top_in_bottom'' (classify_annotations df_top df_bottom) @
     of_type ''bottom_in_top'' (classify_annotations df_top df_bottom)"
    by (rule classify_whole)
  show "set (of_type ''on_both'' (classify_annotations df_top df_bottom)) =
     set (set_type ''on_both'' (filter (\<lambda>r. SNP r \<in> ids df_bottom) df_top))"
    by (rule classify_on_both_rows)
  show "card (ids (of_type ''on_both'' (classify_annotations df_top df_bottom))) +
     card (ids (of_type ''top_in_bottom'' (classify_annotations df_top df_bottom))) +
     card (ids (of_type ''bottom_in_top'' (classify_annotations df_top df_bottom))) =
     card (ids df_top \<union> ids df_bottom)"
    by (rule classify_id_counts)
  show "length (of_type ''on_both'' (classify_annotations df_top df_bottom)) +
      length (of_type ''top_in_bottom'' (classify_annotations df_top df_bottom)) +
      length (of_type ''bottom_in_top'' (classify_annotations df_top df_bottom)) =
      card (ids df_top \<union> ids df_bottom)"
    if "distinct (map SNP df_top) \<and> distinct (map SNP df_bottom)"
    using that by (intro classify_sizes) simp_all
  show "of_type ''top_in_bottom'' (classify_annotations df_top df_bottom) =
     set_type ''top_in_bottom'' (filter (\<lambda>r. SNP r \<notin> ids df_bottom) df_top)"
    by (rule classify_groups)
  show "of_type ''bottom_in_top'' (classify_annotations df_top df_bottom) =
     set_type ''bottom_in_top'' (filter (\<lambda>r. SNP r \<notin> ids df_top) df_bottom)"
    by (rule classify_groups)
  show "classify_annotations [] [] = []"
    by (rule classify_empty)
  show "classify_annotations df_top [] = set_type ''top_in_bottom'' df_top"
    by (rule classify_empty)
  show "classify_annotations [] df_bottom = set_type ''bottom_in_top'' df_bottom"
    by (rule classify_empty)
qed (auto simp: classify_ids)

text \<open>The scenario of the specification: top \<open>{A, B, C}\<close> and bottom \<open>{B, C, D}\<close>.\<close>

theorem classify_annotations_partition_witness:
  "distinct (map SNP [annot ''A'' ''g1'', annot ''B'' ''g2'', annot ''C'' ''g3'']) \<and>
   distinct (map SNP [annot ''B'' ''g2'', annot ''C'' ''g3'', annot ''D'' ''g4'']) \<and>
   length (of_type ''on_both'' (classify_annotations
       [annot ''A'' ''g1'', annot ''B'' ''g2'', annot ''C'' ''g3'']
       [annot ''B'' ''g2'', annot ''C'' ''g3'', annot ''D'' ''g4''])) +
   length (of_type ''top_in_bottom'' (classify_annotations
       [annot ''A'' ''g1'', annot ''B'' ''g2'', annot ''C'' ''g3'']
       [annot ''B'' ''g2'', annot ''C'' ''g3'', annot ''D'' ''g4''])) +
   length (of_type ''bottom_in_top'' (classify_annotations
       [annot ''A'' ''g1'', annot ''B'' ''g2'', annot ''C'' ''g3'']
       [annot ''B'' ''g2'', annot ''C'' ''g3'', annot ''D'' ''g4''])) =
   card (ids [annot ''A'' ''g1'', annot ''B'' ''g2'', annot ''C'' ''g3''] \<union>
         ids [annot ''B'' ''g2'', annot ''C'' ''g3'', annot ''D'' ''g4''])"
proof -
  have d: "distinct (map SNP [annot ''A'' ''g1'', annot ''B'' ''g2'', annot ''C'' ''g3'']) \<and>
           distinct (map SNP [annot ''B'' ''g2'', annot ''C'' ''g3'', annot ''D'' ''g4''])"
    by (simp add: annot_def)
  with classify_annotations_partition[of
      "[annot ''A'' ''g1'', annot ''B'' ''g2'', annot ''C'' ''g3'']"
      "[annot ''B'' ''g2'', annot ''C'' ''g3'', annot ''D'' ''g4'']"]
  show ?thesis by blast
qed

section \<open>Properties of the QQ plot\<close>

lemma pvalue_log_bounds:
  assumes "float64_pvalue x"
  shows "0 < x" "0 \<le> - log 10 x" "- log 10 x \<le> 1074"
proof -
  have lo: "1 / 2 ^ 1074 \<le> x" and hi: "x \<le> 1" using assms by (simp_all add: float64_pvalue_def)
  have "(0::real) < 1 / 2 ^ 1074" by simp
  with lo show pos: "0 < x" by linarith
  have "log 10 x \<le> log 10 1" using pos hi by (subst log_le_cancel_iff) simp_all
  then show "0 \<le> - log 10 x" by simp
  have two: "(0::real) < 2 ^ 1074" by (rule zero_less_power) simp
  have "log 10 (1 / 2 ^ 1074) \<le> log 10 x"
    using lo pos two by (subst log_le_cancel_iff) simp_all
  moreover have "log 10 (1 / 2 ^ 1074) = - (1074 * log 10 2)"
    by (simp only: log_divide_pos zero_less_one two log_one log_nat_power zero_less_numeral
        of_nat_numeral)
  moreover have "log 10 2 \<le> log 10 (10::real)"
    by (subst log_le_cancel_iff) simp_all
  then have "log 10 (2::real) \<le> 1" by simp
  ultimately have "- 1074 \<le> log 10 x" by linarith
  then show "- log 10 x \<le> 1074" by simp
qed

lemma np_round_finite:
  assumes "\<bar>x\<bar> \<le> 2 ^ 38"
  shows "\<exists>y. np_round (Fin x) 3 = Fin y \<and> \<bar>y\<bar> \<le> 2 ^ 52"
proof -
  from np_round_on_grid[OF assms] obtain K :: int where
    K: "\<bar>K\<bar> \<le> 2 ^ 50" "np_round (Fin x) 3 = Fin (fl (of_int K / 1000))" by blast
  have "\<bar>of_int K :: real\<bar> \<le> 2 ^ 50"
    using K(1) by (metis of_int_abs of_int_le_iff of_int_numeral of_int_power)
  then have "\<bar>of_int K / 1000 :: real\<bar> \<le> 2 ^ 50" by simp
  then have "\<bar>fl (of_int K / 1000)\<bar> \<le> 2 * 2 ^ 50 + 1"
    using fl_crude[of "of_int K / 1000"] by linarith
  also have "\<dots> \<le> (2::real) ^ 52" by simp
  finally show ?thesis using K(2) by blast
qed

lemma shift_finite:
  assumes "\<bar>y\<bar> \<le> 2 ^ 52" "\<bar>c\<bar> \<le> 1"
  shows "shift (Fin y) c = Fin (fl (y + c))"
proof -
  have "(2::real) ^ 52 + 1 \<le> 2 ^ 60" by simp
  then have "\<bar>y + c\<bar> \<le> 2 ^ 60" using assms by linarith
  then show ?thesis by (simp add: shift_def to_f64_small)
qed

lemma py_min2_Fin: "py_min2 (Fin a) (Fin b) = Fin (min a b)"
  by (simp add: py_min2_def min_def)

lemma py_max2_Fin: "py_max2 (Fin a) (Fin b) = Fin (max a b)"
  by (simp add: py_max2_def max_def)

lemma band_of_one: "plot_confidence_interval 1 1500 conf_alpha ppf = Inr []"
  by (simp add: plot_confidence_interval_def np_zeros2_def bindE_def)

lemma band_of_none: "plot_confidence_interval 0 1500 conf_alpha ppf = Inl ValueError"
  by (simp add: plot_confidence_interval_def np_zeros2_def bindE_def)

lemma thin_single: "thin [x] = [(np_round (fst x) 3, np_round (snd x) 3)]"
  by (simp add: thin_def drop_duplicates_def split: prod.splits)

lemma rankdata_single: "rankdata [x] = [1]"
  by (simp add: rankdata_def)

lemma qq_plot_one_row:
  assumes r: "gwas_frames w df_gwas = [r]"
    and a: "np_round (neg_log10 (pval r)) 3 = Fin a" "\<bar>a\<bar> \<le> 2 ^ 52"
    and b: "np_round (neg_log10 (1 / 2)) 3 = Fin b" "\<bar>b\<bar> \<le> 2 ^ 52"
  shows "qq_plot w df_gwas plots_dir ppf =
           (Inr True,
            savefig plots_dir ''qq_plot.png''
              [(draw (Line [(fl (min a b - 0.5), fl (min a b - 0.5)), (fl (max a b + 1), fl (max a b + 1))])
                 (draw (Scatter [(Fin b, Fin a)] ''C0'')
                   (draw (Fill [] ''lightgray'') new_axes)))
               \<lparr>xlim := Some (fl (min a b - 0.5), fl (max a b + 1)),
                 ylim := Some (fl (min a b - 0.5), fl (max a b + 1))\<rparr>] w)"
proof -
  have m: "\<bar>min a b\<bar> \<le> 2 ^ 52" "\<bar>max a b\<bar> \<le> 2 ^ 52"
    using a(2) b(2) by (auto simp: min_def max_def)
  have lo: "shift (Fin (min a b)) (- (1 / 2)) = Fin (fl (min a b - 1 / 2))"
    using shift_finite[OF m(1), of "- (1 / 2)"] by simp
  have hi: "shift (Fin (max a b)) 1 = Fin (fl (max a b + 1))"
    using shift_finite[OF m(2), of 1] by simp
  have t: "thin [(neg_log10 (pval r), neg_log10 (1 / 2))] = [(Fin a, Fin b)]"
    by (simp add: thin_single a(1) b(1))
  show ?thesis
    unfolding qq_plot_def r
    by (simp add: Let_def rankdata_single t np_min_def np_max_def bindE_def py_min2_Fin py_max2_Fin
        lo hi band_of_one set_lim_def)
qed

text \<open>
  Claim C8, for a table with exactly one p-value of the data model. \<^verbatim>\<open>qq_plot\<close> raises
  nothing, returns \<^verbatim>\<open>True\<close> and writes \<^verbatim>\<open>qq_plot.png\<close>; the figure holds the empty confidence
  band and the single point, and the band computation returns no boundary point.
\<close>

theorem qq_plot_single_pvalue:
  assumes "gwas_frames w df_gwas = [r]" "float64_pvalue (pval r)"
  shows "fst (qq_plot w df_gwas plots_dir ppf) = Inr True \<and>
         (\<exists>ax. files (snd (qq_plot w df_gwas plots_dir ppf)) =
                  files w @ [(os_path_join plots_dir ''qq_plot.png'', [ax])] \<and>
               take 2 (artists ax) =
                 [Fill [] ''lightgray'',
                  Scatter [(np_round (neg_log10 (1 / 2)) 3, np_round (neg_log10 (pval r)) 3)] ''C0'']) \<and>
         plot_confidence_interval (int (length (gwas_frames w df_gwas))) 1500 0.05 ppf = Inr []"
proof -
  note p = pvalue_log_bounds[OF assms(2)]
  have "\<bar>- log 10 (pval r)\<bar> \<le> 2 ^ 38" using p(2,3) by simp
  from np_round_finite[OF this] p(1) obtain a where
    a: "np_round (neg_log10 (pval r)) 3 = Fin a" "\<bar>a\<bar> \<le> 2 ^ 52"
    by (auto simp: neg_log10_def)
  have h: "float64_pvalue (1 / 2)" by (simp add: float64_pvalue_def)
  note q = pvalue_log_bounds[OF h]
  have "\<bar>- log 10 (1 / 2 :: real)\<bar> \<le> 2 ^ 38" using q(2,3) by simp
  from np_round_finite[OF this] obtain b where
    b: "np_round (neg_log10 (1 / 2)) 3 = Fin b" "\<bar>b\<bar> \<le> 2 ^ 52"
    by (auto simp: neg_log10_def)
  show ?thesis
    unfolding qq_plot_one_row[OF assms(1) a b]
    by (simp add: savefig_def draw_def new_axes_def a(1) b(1) assms(1) band_of_one)
qed

text \<open>The one-row table of the example store.\<close>

theorem qq_plot_single_pvalue_witness:
  "gwas_frames scenario_world 2 =
     [\<lparr>SNP = ''rs7'', chrom = 1, POS = 10, pval = 1 / 10, split_by = None\<rparr>] \<and>
   float64_pvalue (1 / 10) \<and>
   fst (qq_plot scenario_world 2 ''plots'' beta_ppf) = Inr True \<and>
   map fst (files (snd (qq_plot scenario_world 2 ''plots'' beta_ppf))) = [''plots/qq_plot.png''] \<and>
   plot_confidence_interval 1 1500 0.05 beta_ppf = Inr []"
proof -
  let ?r = "\<lparr>SNP = ''rs7'', chrom = 1 :: int, POS = 10, pval = 1 / 10, split_by = None\<rparr>"
  have h: "gwas_frames scenario_world 2 = [?r]"
    by (simp add: scenario_world_def single_table_def)
  have f: "float64_pvalue (pval ?r)"
    by (simp add: float64_pvalue_def)
  have e: "files scenario_world = []" "os_path_join ''plots'' ''qq_plot.png'' = ''plots/qq_plot.png''"
    by (simp_all add: scenario_world_def os_path_join_def)
  from qq_plot_single_pvalue[OF h f, of "''plots''" beta_ppf] h f e
  show ?thesis by auto
qed

text \<open>
  Claim C8 as stated includes \<open>n = 0\<close>. On an empty table \<^verbatim>\<open>qq_plot\<close> raises
  \<^verbatim>\<open>ValueError\<close> at line 237 (the minimum of an empty column) and writes nothing, and
  \<^verbatim>\<open>plot_confidence_interval(0)\<close> raises \<^verbatim>\<open>ValueError\<close> at line 264 (an array of -2 rows).
\<close>

theorem qq_plot_empty_counterexample:
  "gwas_frames scenario_world 3 = [] \<and>
   qq_plot scenario_world 3 ''plots'' beta_ppf = (Inl ValueError, scenario_world) \<and>
   plot_confidence_interval 0 1500 0.05 beta_ppf = Inl ValueError"
  by (simp add: qq_plot_def scenario_world_def rankdata_def thin_def drop_duplicates_def
      np_min_def bindE_def band_of_none)

end
